theory Spec2Isabelle
  imports Complex_Main "HOL-Library.Word"
begin

section \<open>JavaScript numbers\<close>

text \<open>
  The TypeScript sources compute with IEEE doubles.  The checks they make
  (\<^verbatim>\<open>isFinite\<close>, \<^verbatim>\<open>> 0\<close>, truthiness, \<^verbatim>\<open>Math.min\<close>/\<^verbatim>\<open>Math.max\<close>) distinguish
  the finite values from the infinities and from NaN, so a number is a real or
  one of these three.  Finite arithmetic is exact real arithmetic: rounding of
  doubles is not represented.
\<close>

datatype jsnum = Fin real | PosInf | NegInf | NaN

fun isFinite :: "jsnum \<Rightarrow> bool" where
  "isFinite (Fin r) = True"
| "isFinite PosInf = False"
| "isFinite NegInf = False"
| "isFinite NaN = False"

text \<open>\<^verbatim>\<open>x > 0\<close>\<close>
fun gt0 :: "jsnum \<Rightarrow> bool" where
  "gt0 (Fin r) = (0 < r)"
| "gt0 PosInf = True"
| "gt0 NegInf = False"
| "gt0 NaN = False"

text \<open>Truthiness of a number: everything but 0 and NaN.\<close>
fun truthy :: "jsnum \<Rightarrow> bool" where
  "truthy (Fin r) = (r \<noteq> 0)"
| "truthy PosInf = True"
| "truthy NegInf = True"
| "truthy NaN = False"

section \<open>AI transformation status (aiStore.ts, checkTransformationStatus)\<close>

text \<open>
  The persisted vocabulary is the type of \<^verbatim>\<open>AITransformation['status']\<close> and the
  CHECK constraint \<^verbatim>\<open>ai_transformations_status_check\<close> of the migrations; the
  inference vocabulary is the type of \<^verbatim>\<open>ReplicatePrediction['status']\<close>.
\<close>

definition persisted_statuses :: "string list" where
  "persisted_statuses =
     [''pending'', ''processing'', ''completed'', ''failed'', ''cancelled'']"

definition inference_statuses :: "string list" where
  "inference_statuses =
     [''starting'', ''processing'', ''succeeded'', ''failed'', ''canceled'']"

text \<open>The fields of the stored transformation that the status check reads.\<close>
record ai_transformation =
  tr_id :: string
  tr_status :: string
  replicate_prediction_id :: "string option"
  tr_started_at :: "int option"

text \<open>\<^verbatim>\<open>string | string[] | undefined\<close>\<close>
datatype prediction_output = OutString string | OutArray "string list" | OutUndefined

text \<open>\<^verbatim>\<open>ProxyStatusResponse\<close>, the fields read by the store.\<close>
record status_response =
  rs_success :: bool
  rs_status :: "string option"
  rs_output :: prediction_output
  rs_error :: "string option"

text \<open>
  \<^verbatim>\<open>Partial<AITransformation>\<close> as built by the status check: a field is
  \<open>None\<close> when the update does not mention it.  Timestamps are milliseconds
  since the epoch (the source formats them with \<^verbatim>\<open>toISOString\<close>).
\<close>
record ai_updates =
  up_status :: "string option"
  up_started_at :: "int option"
  up_completed_at :: "int option"
  up_output_audio_path :: "string option"
  up_processing_time_seconds :: "int option"
  up_error_message :: "string option"

text \<open>\<^verbatim>\<open>Array.isArray(output) ? output[0] : output\<close>\<close>
fun first_output :: "prediction_output \<Rightarrow> string option" where
  "first_output (OutString s) = Some s"
| "first_output (OutArray []) = None"
| "first_output (OutArray (s # ss)) = Some s"
| "first_output OutUndefined = None"

text \<open>\<^verbatim>\<open>Math.round((now - started) / 1000)\<close> on integer milliseconds.\<close>
definition processing_time :: "int \<Rightarrow> int \<Rightarrow> int" where
  "processing_time now started = (now - started + 500) div 1000"

text \<open>\<^verbatim>\<open>statusResponse.error || 'Processing failed'\<close>\<close>
definition error_or_default :: "string option \<Rightarrow> string" where
  "error_or_default e =
     (case e of None \<Rightarrow> ''Processing failed''
      | Some m \<Rightarrow> if m = [] then ''Processing failed'' else m)"

text \<open>
  Lines 286 to 310: the update starts from the response's status, cast to the
  persisted type, and the three \<^verbatim>\<open>if\<close> statements then run in order.
\<close>
definition build_updates :: "int \<Rightarrow> ai_transformation \<Rightarrow> status_response \<Rightarrow> ai_updates" where
  "build_updates now tr resp =
    (let u0 = \<lparr> up_status = rs_status resp, up_started_at = None,
                up_completed_at = None, up_output_audio_path = None,
                up_processing_time_seconds = None, up_error_message = None \<rparr>;
         u1 = (if rs_status resp = Some ''processing'' \<and> tr_started_at tr = None
               then u0\<lparr> up_started_at := Some now \<rparr> else u0);
         u2 = (if rs_status resp = Some ''succeeded''
               then (let v = u1\<lparr> up_status := Some ''completed'',
                                  up_completed_at := Some now,
                                  up_output_audio_path := first_output (rs_output resp) \<rparr>
                     in case tr_started_at tr of
                          None \<Rightarrow> v
                        | Some st \<Rightarrow> v\<lparr> up_processing_time_seconds := Some (processing_time now st) \<rparr>)
               else u1);
         u3 = (if rs_status resp = Some ''failed''
               then u2\<lparr> up_error_message := Some (error_or_default (rs_error resp)),
                        up_completed_at := Some now \<rparr>
               else u2)
     in u3)"

text \<open>
  The update that \<^verbatim>\<open>checkTransformationStatus\<close> sends to the persistence
  collaborator.  \<open>None\<close> is one of the early returns: no stored
  transformation, no prediction id, a status request that threw (the response is
  \<open>None\<close>) or one that reports \<^verbatim>\<open>success: false\<close>.
\<close>
definition checkTransformationStatus ::
  "int \<Rightarrow> ai_transformation option \<Rightarrow> status_response option \<Rightarrow> ai_updates option" where
  "checkTransformationStatus now stored response =
    (case stored of
       None \<Rightarrow> None
     | Some tr \<Rightarrow>
        (case replicate_prediction_id tr of
           None \<Rightarrow> None
         | Some pid \<Rightarrow>
            if pid = [] then None
            else (case response of
                    None \<Rightarrow> None
                  | Some resp \<Rightarrow>
                      if \<not> rs_success resp then None
                      else Some (build_updates now tr resp))))"

text \<open>The CHECK constraint of the \<^verbatim>\<open>ai_transformations\<close> table.\<close>
definition ai_transformations_status_check :: "string \<Rightarrow> bool" where
  "ai_transformations_status_check s = (s \<in> set persisted_statuses)"

text \<open>
  Line 331: polling stops when the response's status is one of these names.
\<close>
definition stops_polling :: "status_response \<Rightarrow> bool" where
  "stops_polling resp =
     ((case rs_status resp of None \<Rightarrow> [] | Some s \<Rightarrow> s)
        \<in> set [''completed'', ''failed'', ''cancelled''])"

section \<open>Recording (useAudioRecorder.ts)\<close>

text \<open>Lines 273 to 279, in the order of preference.\<close>
definition supportedTypes :: "string list" where
  "supportedTypes =
     [''audio/webm;codecs=opus'', ''audio/webm'', ''audio/mp4'',
      ''audio/ogg;codecs=opus'', ''audio/wav'']"

text \<open>
  The loop of lines 281 to 286 over a candidate list: the first type the platform
  supports, the empty string when there is none.  The platform's
  \<^verbatim>\<open>MediaRecorder.isTypeSupported\<close> is the parameter.
\<close>
fun first_supported :: "(string \<Rightarrow> bool) \<Rightarrow> string list \<Rightarrow> string" where
  "first_supported isTypeSupported [] = []"
| "first_supported isTypeSupported (t # ts) =
     (if isTypeSupported t then t else first_supported isTypeSupported ts)"

definition select_mimeType :: "(string \<Rightarrow> bool) \<Rightarrow> string" where
  "select_mimeType isTypeSupported = first_supported isTypeSupported supportedTypes"

text \<open>A blob: its parts' sizes and its MIME hint.\<close>
record blob =
  blob_parts :: "nat list"
  blob_type :: string

definition blob_size :: "blob \<Rightarrow> nat" where
  "blob_size b = sum_list (blob_parts b)"

text \<open>
  The recorder's refs: the MediaRecorder with the container it was created for
  (the empty string is the platform default) and the chunks collected so far.
\<close>
record media_recorder =
  rec_mimeType :: string
  chunks :: "nat list"

text \<open>
  \<^verbatim>\<open>startRecording\<close>, the part that creates the recorder: the container is
  chosen once and the chunk list starts empty.
\<close>
definition startRecording :: "(string \<Rightarrow> bool) \<Rightarrow> media_recorder" where
  "startRecording isTypeSupported =
     \<lparr> rec_mimeType = select_mimeType isTypeSupported, chunks = [] \<rparr>"

text \<open>\<^verbatim>\<open>ondataavailable\<close>: a chunk is kept when it is not empty.\<close>
definition ondataavailable :: "nat \<Rightarrow> media_recorder \<Rightarrow> media_recorder" where
  "ondataavailable sz r = (if 0 < sz then r\<lparr> chunks := chunks r @ [sz] \<rparr> else r)"

text \<open>
  \<^verbatim>\<open>stopRecording\<close>: \<open>None\<close> (the source's \<^verbatim>\<open>null\<close>) without a recorder,
  otherwise the blob built in \<^verbatim>\<open>onstop\<close>.
\<close>
definition stopRecording :: "media_recorder option \<Rightarrow> blob option" where
  "stopRecording r =
     (case r of
        None \<Rightarrow> None
      | Some rec \<Rightarrow> Some \<lparr> blob_parts = chunks rec, blob_type = ''audio/webm'' \<rparr>)"

text \<open>A session: the recorder is started and then receives chunks.\<close>
definition record_session :: "(string \<Rightarrow> bool) \<Rightarrow> nat list \<Rightarrow> media_recorder" where
  "record_session isTypeSupported szs =
     fold ondataavailable szs (startRecording isTypeSupported)"

section \<open>Duration resolver (projectStore.ts and aiStore.ts, getAudioDuration)\<close>

text \<open>
  Both stores hold the same function.  A promise settles once: the first call of
  \<^verbatim>\<open>resolve\<close> or \<^verbatim>\<open>reject\<close> decides it and later calls do nothing.  \<open>None\<close> is
  the pending promise.
\<close>

datatype settled = Resolved real | Rejected string

type_synonym promise = "settled option"

definition resolve :: "real \<Rightarrow> promise \<Rightarrow> promise" where
  "resolve d p = (case p of None \<Rightarrow> Some (Resolved d) | Some s \<Rightarrow> Some s)"

definition reject :: "string \<Rightarrow> promise \<Rightarrow> promise" where
  "reject m p = (case p of None \<Rightarrow> Some (Rejected m) | Some s \<Rightarrow> Some s)"

text \<open>
  What the platform does with the blob.  The media element dispatches events,
  each read with the value \<^verbatim>\<open>audio.duration\<close> has at that moment; the list
  holds those dispatched before the 5 second timer fires.  Decoding the blob
  gives a buffer with a duration, or fails (\<open>None\<close>: \<^verbatim>\<open>arrayBuffer\<close> or
  \<^verbatim>\<open>decodeAudioData\<close> rejects, or the context cannot be created); it is a
  function of the blob, so a second attempt has the same outcome.
\<close>
datatype media_event =
  LoadedMetadata jsnum | DurationChange jsnum | CanPlayThrough jsnum | ErrorEvent

record audio_env =
  element_events :: "media_event list"
  decoded_duration :: "jsnum option"

text \<open>The value of a number known to be finite.\<close>
fun to_real :: "jsnum \<Rightarrow> real" where
  "to_real (Fin r) = r"
| "to_real PosInf = 0"
| "to_real NegInf = 0"
| "to_real NaN = 0"

text \<open>
  Method 3.  \<^verbatim>\<open>(audioBlob.size * 8) / (128 * 1000)\<close>, accepted strictly between
  0 and 3600.
\<close>
definition estimatedDuration :: "nat \<Rightarrow> real" where
  "estimatedDuration size_bytes = (real size_bytes * 8) / (128 * 1000)"

definition tryEstimateFromSize :: "nat \<Rightarrow> promise \<Rightarrow> promise" where
  "tryEstimateFromSize size_bytes p =
     (if 0 < estimatedDuration size_bytes \<and> estimatedDuration size_bytes < 3600
      then resolve (estimatedDuration size_bytes) p
      else reject ''Could not determine audio duration'' p)"

text \<open>Method 2: the \<^verbatim>\<open>then\<close> branch and the \<^verbatim>\<open>catch\<close> branch.\<close>
definition tryWebAudioAPI :: "audio_env \<Rightarrow> nat \<Rightarrow> promise \<Rightarrow> promise" where
  "tryWebAudioAPI env size_bytes p =
     (case decoded_duration env of
        None \<Rightarrow> tryEstimateFromSize size_bytes p
      | Some d \<Rightarrow>
          if isFinite d \<and> gt0 d then resolve (to_real d) p
          else tryEstimateFromSize size_bytes p)"

text \<open>
  Method 1.  The closure's \<^verbatim>\<open>resolved\<close> flag, whether the four listeners are
  still attached, and the promise.
\<close>
record element_state =
  resolved :: bool
  listening :: bool
  promise_of :: promise

text \<open>\<^verbatim>\<open>cleanup\<close> removes the listeners only while \<^verbatim>\<open>resolved\<close> is false.\<close>
definition cleanup :: "element_state \<Rightarrow> element_state" where
  "cleanup st = (if \<not> resolved st then st\<lparr> listening := False \<rparr> else st)"

definition resolveWithDuration ::
  "audio_env \<Rightarrow> nat \<Rightarrow> jsnum \<Rightarrow> element_state \<Rightarrow> element_state" where
  "resolveWithDuration env size_bytes d st =
     (if resolved st then st
      else (let st1 = cleanup (st\<lparr> resolved := True \<rparr>)
            in if isFinite d \<and> gt0 d
               then st1\<lparr> promise_of := resolve (to_real d) (promise_of st1) \<rparr>
               else st1\<lparr> promise_of := tryWebAudioAPI env size_bytes (promise_of st1) \<rparr>))"

text \<open>\<^verbatim>\<open>onLoadedMetadata\<close>, \<^verbatim>\<open>onDurationChange\<close> and \<^verbatim>\<open>onCanPlayThrough\<close> have one body.\<close>
definition onDuration ::
  "audio_env \<Rightarrow> nat \<Rightarrow> jsnum \<Rightarrow> element_state \<Rightarrow> element_state" where
  "onDuration env size_bytes d st =
     (if truthy d \<and> isFinite d \<and> gt0 d then resolveWithDuration env size_bytes d st else st)"

definition onError :: "audio_env \<Rightarrow> nat \<Rightarrow> element_state \<Rightarrow> element_state" where
  "onError env size_bytes st =
     (if \<not> resolved st
      then (let st1 = cleanup st
            in st1\<lparr> promise_of := tryWebAudioAPI env size_bytes (promise_of st1) \<rparr>)
      else st)"

text \<open>The timer of 5000 ms; it is never cleared.\<close>
definition onTimeout :: "audio_env \<Rightarrow> nat \<Rightarrow> element_state \<Rightarrow> element_state" where
  "onTimeout env size_bytes st =
     (if \<not> resolved st
      then (let st1 = cleanup st
            in st1\<lparr> promise_of := tryWebAudioAPI env size_bytes (promise_of st1) \<rparr>)
      else st)"

text \<open>An event reaches its handler only while the listeners are attached.\<close>
definition dispatch ::
  "audio_env \<Rightarrow> nat \<Rightarrow> media_event \<Rightarrow> element_state \<Rightarrow> element_state" where
  "dispatch env size_bytes ev st =
     (if listening st
      then (case ev of
              LoadedMetadata d \<Rightarrow> onDuration env size_bytes d st
            | DurationChange d \<Rightarrow> onDuration env size_bytes d st
            | CanPlayThrough d \<Rightarrow> onDuration env size_bytes d st
            | ErrorEvent \<Rightarrow> onError env size_bytes st)
      else st)"

definition tryAudioElement :: "audio_env \<Rightarrow> nat \<Rightarrow> element_state" where
  "tryAudioElement env size_bytes =
     onTimeout env size_bytes
       (fold (dispatch env size_bytes) (element_events env)
          \<lparr> resolved = False, listening = True, promise_of = None \<rparr>)"

text \<open>The promise returned by \<^verbatim>\<open>getAudioDuration\<close>, once the timer has fired.\<close>
definition getAudioDuration :: "audio_env \<Rightarrow> blob \<Rightarrow> promise" where
  "getAudioDuration env audioBlob = promise_of (tryAudioElement env (blob_size audioBlob))"

text \<open>
  The strategy chain in the words of the specification: the first strategy
  gives the first finite positive duration that the element reports before an
  error or the timeout, the second the decoded duration when it is finite and
  positive, the third the estimate when it lies strictly between 0 and 3600.
\<close>
fun event_duration :: "media_event \<Rightarrow> jsnum option" where
  "event_duration (LoadedMetadata d) = Some d"
| "event_duration (DurationChange d) = Some d"
| "event_duration (CanPlayThrough d) = Some d"
| "event_duration ErrorEvent = None"

fun strategy_element :: "media_event list \<Rightarrow> real option" where
  "strategy_element [] = None"
| "strategy_element (ev # evs) =
     (case event_duration ev of
        None \<Rightarrow> None
      | Some d \<Rightarrow> if isFinite d \<and> gt0 d then Some (to_real d) else strategy_element evs)"

definition strategy_decode :: "jsnum option \<Rightarrow> real option" where
  "strategy_decode dd =
     (case dd of None \<Rightarrow> None
      | Some d \<Rightarrow> if isFinite d \<and> gt0 d then Some (to_real d) else None)"

definition strategy_size :: "nat \<Rightarrow> real option" where
  "strategy_size size_bytes =
     (if 0 < real size_bytes * 8 / 128000 \<and> real size_bytes * 8 / 128000 < 3600
      then Some (real size_bytes * 8 / 128000) else None)"

definition resolveDuration_chain :: "audio_env \<Rightarrow> nat \<Rightarrow> settled" where
  "resolveDuration_chain env size_bytes =
     (case strategy_element (element_events env) of
        Some d \<Rightarrow> Resolved d
      | None \<Rightarrow>
         (case strategy_decode (decoded_duration env) of
            Some d \<Rightarrow> Resolved d
          | None \<Rightarrow>
             (case strategy_size size_bytes of
                Some d \<Rightarrow> Resolved d
              | None \<Rightarrow> Rejected ''Could not determine audio duration'')))"

section \<open>Tracks and the track store (aiStore.ts, useTrackStore)\<close>

text \<open>
  The playback-relevant columns of a track and the local \<^verbatim>\<open>audio_url\<close>, which
  is not a column of the table.  \<^verbatim>\<open>id\<close> and \<^verbatim>\<open>name\<close> carry the prefix of the
  record.
\<close>
record track =
  track_id :: string
  project_id :: string
  user_id :: string
  track_name :: string
  audio_url :: "string option"
  duration_seconds :: real
  volume :: real
  pan :: real
  is_muted :: bool
  is_solo :: bool
  track_order :: int

text \<open>\<^verbatim>\<open>TrackSession\<close>\<close>
record track_session =
  ts_trackId :: string
  ts_audioUrl :: string
  ts_isPlaying :: bool
  ts_currentTime :: real
  ts_duration :: real

text \<open>The state of \<^verbatim>\<open>useTrackStore\<close>.\<close>
record track_store =
  tracks :: "track list"
  currentTrack :: "track option"
  trackSessions :: "string \<Rightarrow> track_session option"
  loading :: bool
  store_error :: "string option"

text \<open>
  What a \<^verbatim>\<open>catch\<close> block receives: an \<^verbatim>\<open>Error\<close> with its message, or another
  value.
\<close>
datatype thrown = JsError string | OtherValue

text \<open>
  The persistence collaborator as the store sees it: the rows of the
  \<^verbatim>\<open>tracks\<close> table, whether a request fails before reaching them
  (\<open>Some e\<close>: every request answers with the error \<open>e\<close>), and the error
  value the client library reports when the table refuses a request.
\<close>
record remote =
  table_rows :: "track list"
  failure :: "thrown option"
  table_error :: thrown

text \<open>\<^verbatim>\<open>Partial<Track>\<close>, for the columns the store updates.\<close>
record track_updates =
  u_volume :: "real option"
  u_pan :: "real option"
  u_is_muted :: "bool option"
  u_is_solo :: "bool option"
  u_track_order :: "int option"

definition no_updates :: track_updates where
  "no_updates = \<lparr> u_volume = None, u_pan = None, u_is_muted = None,
                  u_is_solo = None, u_track_order = None \<rparr>"

definition apply_updates :: "track_updates \<Rightarrow> track \<Rightarrow> track" where
  "apply_updates u r =
     r\<lparr> volume := (case u_volume u of None \<Rightarrow> volume r | Some v \<Rightarrow> v),
        pan := (case u_pan u of None \<Rightarrow> pan r | Some v \<Rightarrow> v),
        is_muted := (case u_is_muted u of None \<Rightarrow> is_muted r | Some v \<Rightarrow> v),
        is_solo := (case u_is_solo u of None \<Rightarrow> is_solo r | Some v \<Rightarrow> v),
        track_order := (case u_track_order u of None \<Rightarrow> track_order r | Some v \<Rightarrow> v) \<rparr>"

text \<open>
  \<^verbatim>\<open>from('tracks').update(updates).eq('id', id).select().single()\<close>: the updated
  row, or an error when the request fails or no row has the id.
\<close>
definition supabase_update ::
  "string \<Rightarrow> track_updates \<Rightarrow> remote \<Rightarrow> (thrown + track) \<times> remote" where
  "supabase_update i u rem =
     (case failure rem of
        Some e \<Rightarrow> (Inl e, rem)
      | None \<Rightarrow>
         (case find (\<lambda>r. track_id r = i) (table_rows rem) of
            None \<Rightarrow> (Inl (table_error rem), rem)
          | Some r \<Rightarrow>
              (Inr (apply_updates u r),
               rem\<lparr> table_rows :=
                  map (\<lambda>r. if track_id r = i then apply_updates u r else r) (table_rows rem) \<rparr>)))"



text \<open>
  \<^verbatim>\<open>{ ...t, ...updatedTrack }\<close>: every column of the returned row replaces the
  local value; \<^verbatim>\<open>audio_url\<close> is not a column and stays.
\<close>
definition merge_track :: "track \<Rightarrow> track \<Rightarrow> track" where
  "merge_track t row = row\<lparr> audio_url := audio_url t \<rparr>"

text \<open>\<^verbatim>\<open>updateTrack\<close>: the returned flag, the store and the table afterwards.\<close>
definition updateTrack ::
  "string \<Rightarrow> track_updates \<Rightarrow> track_store \<times> remote \<Rightarrow> bool \<times> track_store \<times> remote" where
  "updateTrack i u sr =
     (let st1 = (fst sr)\<lparr> loading := True, store_error := None \<rparr>
      in case supabase_update i u (snd sr) of
           (Inl e, rem') \<Rightarrow>
             (False, st1\<lparr> store_error := Some ''Failed to update track'', loading := False \<rparr>, rem')
         | (Inr updatedTrack, rem') \<Rightarrow>
             (True,
              st1\<lparr> tracks := map (\<lambda>t. if track_id t = i then merge_track t updatedTrack else t)
                                (tracks st1),
                   currentTrack :=
                     (case currentTrack st1 of
                        None \<Rightarrow> None
                      | Some c \<Rightarrow> if track_id c = i then Some (merge_track c updatedTrack)
                                  else Some c),
                   loading := False \<rparr>,
              rem'))"

text \<open>\<^verbatim>\<open>muteTrack\<close>\<close>
definition muteTrack ::
  "string \<Rightarrow> bool \<Rightarrow> track_store \<times> remote \<Rightarrow> track_store \<times> remote" where
  "muteTrack trackId m sr = snd (updateTrack trackId (no_updates\<lparr> u_is_muted := Some m \<rparr>) sr)"

text \<open>
  The body of the loop of \<^verbatim>\<open>soloTrack\<close>, for one track of the list read at the
  start of the call.  The flag that \<^verbatim>\<open>updateTrack\<close> returns is not looked at.
\<close>
definition solo_step ::
  "string \<Rightarrow> track \<Rightarrow> track_store \<times> remote \<Rightarrow> track_store \<times> remote" where
  "solo_step trackId t sr =
     (if track_id t = trackId
      then snd (updateTrack (track_id t)
                  (no_updates\<lparr> u_is_solo := Some True, u_is_muted := Some False \<rparr>) sr)
      else snd (updateTrack (track_id t) (no_updates\<lparr> u_is_solo := Some False \<rparr>) sr))"

definition soloTrack ::
  "string \<Rightarrow> bool \<Rightarrow> track_store \<times> remote \<Rightarrow> track_store \<times> remote" where
  "soloTrack trackId solo sr =
     (if solo then fold (solo_step trackId) (tracks (fst sr)) sr
      else snd (updateTrack trackId (no_updates\<lparr> u_is_solo := Some False \<rparr>) sr))"






section \<open>Multi-track transport (MultiTrackPlayer.tsx)\<close>

text \<open>The attributes of an \<^verbatim>\<open>HTMLAudioElement\<close> that the player reads and writes.\<close>
record audio_element =
  el_src :: string
  el_volume :: real
  el_muted :: bool
  el_paused :: bool
  el_currentTime :: real

text \<open>\<^verbatim>\<open>new Audio()\<close>\<close>
definition new_Audio :: audio_element where
  "new_Audio = \<lparr> el_src = [], el_volume = 1, el_muted = False, el_paused = True,
                 el_currentTime = 0 \<rparr>"

text \<open>\<^verbatim>\<open>audio.load()\<close> aborts playback and rewinds.\<close>
definition load_element :: "audio_element \<Rightarrow> audio_element" where
  "load_element a = a\<lparr> el_paused := True, el_currentTime := 0 \<rparr>"

text \<open>
  The setter of \<^verbatim>\<open>volume\<close> throws an IndexSizeError outside the range from 0
  to 1.
\<close>
datatype dom_exception = IndexSizeError

definition set_volume :: "real \<Rightarrow> audio_element \<Rightarrow> dom_exception + audio_element" where
  "set_volume v a = (if 0 \<le> v \<and> v \<le> 1 then Inr (a\<lparr> el_volume := v \<rparr>) else Inl IndexSizeError)"

text \<open>
  \<^verbatim>\<open>audioRefs\<close> is a \<^verbatim>\<open>Map\<close> from track ids to elements, iterated in the order
  of insertion.
\<close>
type_synonym audio_refs = "(string \<times> audio_element) list"

definition refs_get :: "audio_refs \<Rightarrow> string \<Rightarrow> audio_element option" where
  "refs_get refs k = map_of refs k"

fun refs_set :: "string \<Rightarrow> audio_element \<Rightarrow> audio_refs \<Rightarrow> audio_refs" where
  "refs_set k a [] = [(k, a)]"
| "refs_set k a (p # ps) = (if fst p = k then (k, a) # ps else p # refs_set k a ps)"

definition refs_delete :: "string \<Rightarrow> audio_refs \<Rightarrow> audio_refs" where
  "refs_delete k refs = filter (\<lambda>p. fst p \<noteq> k) refs"

text \<open>Lines 17 to 21: \<^verbatim>\<open>Math.max(0, ...tracks.map(t => t.duration_seconds))\<close>.\<close>
definition master_duration :: "track list \<Rightarrow> real" where
  "master_duration ts = fold max (map duration_seconds ts) 0"

text \<open>
  Lines 26 to 42, the body of \<^verbatim>\<open>tracks.forEach\<close> for one track: the map
  afterwards, and the exception when the volume setter threw (the assignment of
  \<^verbatim>\<open>muted\<close> is then not reached).
\<close>
definition apply_track_settings ::
  "track list \<Rightarrow> (string \<Rightarrow> track_session option) \<Rightarrow> real \<Rightarrow> track \<Rightarrow> audio_refs \<Rightarrow>
   audio_refs \<times> dom_exception option" where
  "apply_track_settings ts sessions masterVolume t refs =
     (case sessions (track_id t) of
        None \<Rightarrow> (refs, None)
      | Some session \<Rightarrow>
          if ts_audioUrl session = [] then (refs, None)
          else
            (let audio0 = (case refs_get refs (track_id t) of
                             None \<Rightarrow> new_Audio | Some a \<Rightarrow> a);
                 audio1 = (if el_src audio0 \<noteq> ts_audioUrl session
                           then load_element (audio0\<lparr> el_src := ts_audioUrl session \<rparr>)
                           else audio0)
             in case set_volume (volume t * masterVolume * (if is_muted t then 0 else 1)) audio1 of
                  Inl e \<Rightarrow> (refs_set (track_id t) audio1 refs, Some e)
                | Inr audio2 \<Rightarrow>
                    (refs_set (track_id t)
                       (audio2\<lparr> el_muted := (is_muted t \<or> (list_ex is_solo ts \<and> \<not> is_solo t)) \<rparr>)
                       refs,
                     None)))"

fun apply_all_track_settings ::
  "track list \<Rightarrow> (string \<Rightarrow> track_session option) \<Rightarrow> real \<Rightarrow> track list \<Rightarrow> audio_refs \<Rightarrow>
   audio_refs \<times> dom_exception option" where
  "apply_all_track_settings ts sessions masterVolume [] refs = (refs, None)"
| "apply_all_track_settings ts sessions masterVolume (t # rest) refs =
     (case apply_track_settings ts sessions masterVolume t refs of
        (refs', Some e) \<Rightarrow> (refs', Some e)
      | (refs', None) \<Rightarrow> apply_all_track_settings ts sessions masterVolume rest refs')"

text \<open>Lines 46 to 52: the elements of tracks that are gone are paused and dropped.\<close>
definition remove_stale :: "track list \<Rightarrow> audio_refs \<Rightarrow> audio_refs" where
  "remove_stale ts refs = filter (\<lambda>p. fst p \<in> set (map track_id ts)) refs"

text \<open>The effect of lines 24 to 53.  An exception ends it before the clean-up.\<close>
definition track_settings_effect ::
  "track list \<Rightarrow> (string \<Rightarrow> track_session option) \<Rightarrow> real \<Rightarrow> audio_refs \<Rightarrow>
   audio_refs \<times> dom_exception option" where
  "track_settings_effect ts sessions masterVolume refs =
     (case apply_all_track_settings ts sessions masterVolume ts refs of
        (refs', Some e) \<Rightarrow> (refs', Some e)
      | (refs', None) \<Rightarrow> (remove_stale ts refs', None))"

text \<open>A track is heard when its element exists and is not muted.\<close>
definition audible :: "audio_refs \<Rightarrow> string \<Rightarrow> bool" where
  "audible refs k = (case refs_get refs k of None \<Rightarrow> False | Some a \<Rightarrow> \<not> el_muted a)"

text \<open>The component's state.\<close>
record player =
  masterVolume :: real
  currentTime :: real
  isPlaying :: bool
  duration :: real
  audioRefs :: audio_refs

text \<open>\<^verbatim>\<open>array.find\<close>\<close>
definition first_playing :: "audio_refs \<Rightarrow> audio_element option" where
  "first_playing refs = find (\<lambda>a. \<not> el_paused a) (map snd refs)"

text \<open>
  One run of \<^verbatim>\<open>updateTime\<close> (lines 116 to 137); the next animation frame runs
  it again.
\<close>
definition updateTime :: "player \<Rightarrow> player" where
  "updateTime p =
     (if isPlaying p
      then (case first_playing (audioRefs p) of
              None \<Rightarrow> p
            | Some playingAudio \<Rightarrow>
                (let p1 = p\<lparr> currentTime := el_currentTime playingAudio \<rparr>
                 in if duration p \<le> el_currentTime playingAudio
                    then p1\<lparr> isPlaying := False, currentTime := 0,
                            audioRefs := map (\<lambda>(k, a). (k, a\<lparr> el_currentTime := 0, el_paused := True \<rparr>))
                                           (audioRefs p) \<rparr>
                    else p1))
      else p)"

text \<open>Lines 18 to 21: the effect that keeps the logical duration.\<close>
definition duration_effect :: "track list \<Rightarrow> player \<Rightarrow> player" where
  "duration_effect ts p = p\<lparr> duration := master_duration ts \<rparr>"

section \<open>Example data\<close>

text \<open>
  A track of project \<^verbatim>\<open>p1\<close> with the given id, duration, volume, mute and solo
  flags and order, and a table of sessions that gives every track an object URL.
\<close>
definition example_track :: "string \<Rightarrow> real \<Rightarrow> real \<Rightarrow> bool \<Rightarrow> bool \<Rightarrow> int \<Rightarrow> track" where
  "example_track i d v m s k =
     \<lparr> track_id = i, project_id = ''p1'', user_id = ''u1'', track_name = i,
       audio_url = None, duration_seconds = d, volume = v, pan = 0,
       is_muted = m, is_solo = s, track_order = k \<rparr>"

definition example_sessions :: "string \<Rightarrow> track_session option" where
  "example_sessions k =
     Some \<lparr> ts_trackId = k, ts_audioUrl = ''blob:'' @ k, ts_isPlaying = False,
            ts_currentTime = 0, ts_duration = 3 \<rparr>"

definition example_element :: "bool \<Rightarrow> real \<Rightarrow> audio_element" where
  "example_element paused time =
     \<lparr> el_src = ''blob:x'', el_volume = 1, el_muted = False, el_paused = paused,
       el_currentTime = time \<rparr>"

text \<open>A store that holds the given tracks and nothing else.\<close>
definition example_store :: "track list \<Rightarrow> track_store" where
  "example_store ts = \<lparr> tracks = ts, currentTrack = None, trackSessions = (\<lambda>k. None),
                         loading = False, store_error = None \<rparr>"



definition example_remote :: "track list \<Rightarrow> remote" where
  "example_remote rows = \<lparr> table_rows = rows, failure = None, table_error = OtherValue \<rparr>"

section \<open>WAV encoder (EffectsPanel, audioBufferToWav)\<close>

text \<open>
  An \<^verbatim>\<open>AudioBuffer\<close>: its length in sample frames, its channel count, its sample
  rate (a whole number of hertz) and its samples, \<^verbatim>\<open>getChannelData(channel)[i]\<close>.
  A sample is a 32-bit float, so it can be NaN or infinite.
\<close>
record audio_buffer =
  ab_length :: nat
  numberOfChannels :: nat
  sampleRate :: nat
  getChannelData :: "nat \<Rightarrow> nat \<Rightarrow> jsnum"

text \<open>\<^verbatim>\<open>Math.min\<close> and \<^verbatim>\<open>Math.max\<close> of two numbers.\<close>
fun Math_min :: "jsnum \<Rightarrow> jsnum \<Rightarrow> jsnum" where
  "Math_min NaN b = NaN"
| "Math_min a NaN = NaN"
| "Math_min NegInf b = NegInf"
| "Math_min a NegInf = NegInf"
| "Math_min PosInf b = b"
| "Math_min a PosInf = a"
| "Math_min (Fin x) (Fin y) = Fin (min x y)"

fun Math_max :: "jsnum \<Rightarrow> jsnum \<Rightarrow> jsnum" where
  "Math_max NaN b = NaN"
| "Math_max a NaN = NaN"
| "Math_max PosInf b = PosInf"
| "Math_max a PosInf = PosInf"
| "Math_max NegInf b = b"
| "Math_max a NegInf = a"
| "Math_max (Fin x) (Fin y) = Fin (max x y)"

text \<open>The product of a number and a positive finite constant.\<close>
fun times_pos :: "jsnum \<Rightarrow> real \<Rightarrow> jsnum" where
  "times_pos (Fin r) c = Fin (r * c)"
| "times_pos PosInf c = PosInf"
| "times_pos NegInf c = NegInf"
| "times_pos NaN c = NaN"

text \<open>\<^verbatim>\<open>Math.round\<close>: the nearest integer, a half goes up.\<close>
fun Math_round :: "jsnum \<Rightarrow> jsnum" where
  "Math_round (Fin r) = Fin (of_int \<lfloor>r + 1 / 2\<rfloor>)"
| "Math_round PosInf = PosInf"
| "Math_round NegInf = NegInf"
| "Math_round NaN = NaN"

text \<open>
  The integer that a \<^verbatim>\<open>DataView\<close> setter makes of its argument before it
  reduces it to the width: NaN and the infinities give 0, a finite number is
  truncated towards 0.
\<close>
fun ToIntegral :: "jsnum \<Rightarrow> int" where
  "ToIntegral (Fin r) = (if 0 \<le> r then \<lfloor>r\<rfloor> else \<lceil>r\<rceil>)"
| "ToIntegral PosInf = 0"
| "ToIntegral NegInf = 0"
| "ToIntegral NaN = 0"

text \<open>
  A \<^verbatim>\<open>DataView\<close> over an \<^verbatim>\<open>ArrayBuffer\<close> is its list of bytes.  The setters
  keep the low bits of the value (a wider value wraps around) and write them
  little-endian (the third argument of the source is \<^verbatim>\<open>true\<close> throughout).
  Every offset the encoder writes lies inside the buffer; JavaScript would throw
  a RangeError elsewhere.
\<close>
type_synonym data_view = "8 word list"

definition setUint8 :: "nat \<Rightarrow> nat \<Rightarrow> data_view \<Rightarrow> data_view" where
  "setUint8 off v view = view[off := of_nat v]"

definition setUint16 :: "nat \<Rightarrow> nat \<Rightarrow> data_view \<Rightarrow> data_view" where
  "setUint16 off v view = view[off := of_nat v, off + 1 := of_nat (v div 256)]"

definition setUint32 :: "nat \<Rightarrow> nat \<Rightarrow> data_view \<Rightarrow> data_view" where
  "setUint32 off v view =
     view[off := of_nat v, off + 1 := of_nat (v div 256),
          off + 2 := of_nat (v div 65536), off + 3 := of_nat (v div 16777216)]"

definition setInt16 :: "nat \<Rightarrow> jsnum \<Rightarrow> data_view \<Rightarrow> data_view" where
  "setInt16 off x view =
     view[off := of_int (ToIntegral x), off + 1 := of_int (ToIntegral x div 256)]"

text \<open>The getters, little-endian.\<close>
definition getUint16 :: "nat \<Rightarrow> data_view \<Rightarrow> nat" where
  "getUint16 off view = unat (view ! off) + 256 * unat (view ! (off + 1))"

definition getUint32 :: "nat \<Rightarrow> data_view \<Rightarrow> nat" where
  "getUint32 off view =
     unat (view ! off) + 256 * unat (view ! (off + 1))
       + 65536 * unat (view ! (off + 2)) + 16777216 * unat (view ! (off + 3))"

definition getInt16 :: "nat \<Rightarrow> data_view \<Rightarrow> int" where
  "getInt16 off view =
     (let u = uint (view ! off) + 256 * uint (view ! (off + 1))
      in if u < 32768 then u else u - 65536)"

text \<open>\<^verbatim>\<open>writeString\<close>: one byte for each character code.\<close>
definition writeString :: "nat \<Rightarrow> string \<Rightarrow> data_view \<Rightarrow> data_view" where
  "writeString off str view =
     fold (\<lambda>i. setUint8 (off + i) (of_char (str ! i))) [0..<length str] view"

text \<open>Line 379: the clamp.\<close>
definition clamp_sample :: "jsnum \<Rightarrow> jsnum" where
  "clamp_sample x = Math_max (Fin (- 1)) (Math_min (Fin 1) x)"

text \<open>Line 380: \<^verbatim>\<open>Math.round(sample * maxValue)\<close> with \<^verbatim>\<open>maxValue = 32767\<close>.\<close>
definition intSample :: "jsnum \<Rightarrow> jsnum" where
  "intSample x = Math_round (times_pos (clamp_sample x) 32767)"

text \<open>
  The body of the two loops for the frame \<open>i\<close> and the channel: the view and
  the offset before and after.
\<close>
definition write_sample ::
  "audio_buffer \<Rightarrow> nat \<times> nat \<Rightarrow> data_view \<times> nat \<Rightarrow> data_view \<times> nat" where
  "write_sample buffer ic vo =
     (setInt16 (snd vo) (intSample (getChannelData buffer (snd ic) (fst ic))) (fst vo),
      snd vo + 2)"

text \<open>Lines 359 to 371, on a view of at least 44 bytes.\<close>
definition write_header :: "nat \<Rightarrow> nat \<Rightarrow> nat \<Rightarrow> nat \<Rightarrow> nat \<Rightarrow> nat \<Rightarrow> data_view \<Rightarrow> data_view" where
  "write_header bufferSize channels rate byteRate blockAlign dataSize view =
     (setUint32 40 dataSize
       (writeString 36 ''data''
         (setUint16 34 16
           (setUint16 32 blockAlign
             (setUint32 28 byteRate
               (setUint32 24 rate
                 (setUint16 22 channels
                   (setUint16 20 1
                     (setUint32 16 16
                       (writeString 12 ''fmt ''
                         (writeString 8 ''WAVE''
                           (setUint32 4 (bufferSize - 8)
                             (writeString 0 ''RIFF'' view)))))))))))))"

text \<open>The blob that is returned: its bytes and its type.\<close>
record wav_blob =
  wav_bytes :: data_view
  wav_type :: string

definition audioBufferToWav :: "audio_buffer \<Rightarrow> wav_blob" where
  "audioBufferToWav buffer =
     (let length = ab_length buffer;
          numberOfChannels = numberOfChannels buffer;
          sampleRate = sampleRate buffer;
          bytesPerSample = 2;
          blockAlign = numberOfChannels * bytesPerSample;
          byteRate = sampleRate * blockAlign;
          dataSize = length * blockAlign;
          bufferSize = 44 + dataSize;
          view = write_header bufferSize numberOfChannels sampleRate byteRate blockAlign dataSize
                   (replicate bufferSize 0)
      in \<lparr> wav_bytes =
             fst (fold (write_sample buffer)
                    (List.product [0..<length] [0..<numberOfChannels]) (view, 44)),
           wav_type = ''audio/wav'' \<rparr>)"

text \<open>
  The 16-bit value of a sample in the words of the specification: clamped to the
  range from -1 to 1, scaled by 32767 and rounded; a NaN is stored as 0.
\<close>
definition quantized :: "jsnum \<Rightarrow> int" where
  "quantized x =
     (case x of
        NaN \<Rightarrow> 0
      | PosInf \<Rightarrow> 32767
      | NegInf \<Rightarrow> - 32767
      | Fin r \<Rightarrow> \<lfloor>max (- 1) (min 1 r) * 32767 + 1 / 2\<rfloor>)"

section \<open>Effects panel (EffectsPanel, toggleEffect and processAudioWithEffects)\<close>

text \<open>Lines 97 to 103.\<close>
definition toggleEffect :: "string \<Rightarrow> string list \<Rightarrow> string list" where
  "toggleEffect effectName prev =
     (if effectName \<in> set prev then filter (\<lambda>name. name \<noteq> effectName) prev
      else prev @ [effectName])"

text \<open>\<^verbatim>\<open>EffectParameters\<close>; the levels of the three mixing effects carry a prefix.\<close>
record reverb_parameters =
  roomSize :: real
  damping :: real
  rv_wetLevel :: real
  rv_dryLevel :: real

record delay_parameters =
  delayTime :: real
  feedback :: real
  dl_wetLevel :: real
  dl_dryLevel :: real

record chorus_parameters =
  rate :: real
  depth :: real
  ch_wetLevel :: real
  ch_dryLevel :: real

record equalizer_parameters =
  lowGain :: real
  midGain :: real
  highGain :: real

record compressor_parameters =
  threshold :: real
  ratio :: real
  attack :: real
  release :: real

record effect_parameters =
  reverb :: reverb_parameters
  delay :: delay_parameters
  chorus :: chorus_parameters
  equalizer :: equalizer_parameters
  compressor :: compressor_parameters

text \<open>
  The nodes of the offline context with the settings the panel gives them: a
  biquad filter with its type, frequency, Q and gain; a compressor with
  threshold, ratio, attack and release; a convolver with the length of its
  impulse response in frames and the damping that shapes its decay (the samples
  are random); a gain; a delay with its maximum and its delay time; an
  oscillator with its frequency.
\<close>
datatype audio_node =
    Destination
  | BufferSource
  | BiquadFilter string real real real
  | DynamicsCompressor real real real real
  | Convolver nat real
  | Gain real
  | Delay real real
  | Oscillator real

text \<open>\<^verbatim>\<open>connect\<close> leads to the input of a node or to the delay time of a delay.\<close>
datatype connection_target = NodeInput nat | DelayTimeParam nat

text \<open>The graph: the nodes in the order of creation, and the connections.\<close>
record audio_graph =
  nodes :: "audio_node list"
  connections :: "(nat \<times> connection_target) list"

definition create_node :: "audio_node \<Rightarrow> audio_graph \<Rightarrow> nat \<times> audio_graph" where
  "create_node k g = (length (nodes g), g\<lparr> nodes := nodes g @ [k] \<rparr>)"

definition connect :: "nat \<Rightarrow> connection_target \<Rightarrow> audio_graph \<Rightarrow> audio_graph" where
  "connect a t g = g\<lparr> connections := connections g @ [(a, t)] \<rparr>"

text \<open>
  \<^verbatim>\<open>createBuffer\<close> refuses an impulse response without frames.
\<close>
datatype graph_exception = NotSupportedError

text \<open>
  The body of \<^verbatim>\<open>activeEffects.forEach\<close> (lines 178 to 308) for one effect name,
  on the graph and \<^verbatim>\<open>currentNode\<close>.  A name without a case leaves both as they
  are.
\<close>
definition apply_effect ::
  "nat \<Rightarrow> effect_parameters \<Rightarrow> string \<Rightarrow> audio_graph \<times> nat \<Rightarrow>
   graph_exception + audio_graph \<times> nat" where
  "apply_effect rate_hz parameters effectType gc =
    (let g = fst gc; currentNode = snd gc in
     if effectType = ''equalizer'' then
       (let (lowShelf, g1) = create_node
               (BiquadFilter ''lowshelf'' 320 1 (lowGain (equalizer parameters))) g;
            (midPeaking, g2) = create_node
               (BiquadFilter ''peaking'' 1000 1 (midGain (equalizer parameters))) g1;
            (highShelf, g3) = create_node
               (BiquadFilter ''highshelf'' 3200 1 (highGain (equalizer parameters))) g2
        in Inr (connect midPeaking (NodeInput highShelf)
                 (connect lowShelf (NodeInput midPeaking)
                   (connect currentNode (NodeInput lowShelf) g3)),
                highShelf))
     else if effectType = ''compressor'' then
       (let (comp, g1) = create_node
               (DynamicsCompressor (threshold (compressor parameters))
                  (ratio (compressor parameters)) (attack (compressor parameters))
                  (release (compressor parameters))) g
        in Inr (connect currentNode (NodeInput comp) g1, comp))
     else if effectType = ''reverb'' then
       (let frames = \<lfloor>real rate_hz * roomSize (reverb parameters) * 4\<rfloor>
        in if frames < 1 then Inl NotSupportedError
           else
            (let (convolver, g1) = create_node
                    (Convolver (nat frames) (damping (reverb parameters))) g;
                 (wetGain, g2) = create_node (Gain (rv_wetLevel (reverb parameters))) g1;
                 (dryGain, g3) = create_node (Gain (rv_dryLevel (reverb parameters))) g2;
                 (outputGain, g4) = create_node (Gain 1) g3
             in Inr (connect dryGain (NodeInput outputGain)
                      (connect currentNode (NodeInput dryGain)
                        (connect wetGain (NodeInput outputGain)
                          (connect convolver (NodeInput wetGain)
                            (connect currentNode (NodeInput convolver) g4)))),
                     outputGain)))
     else if effectType = ''delay'' then
       (let (del, g1) = create_node (Delay 1 (delayTime (delay parameters))) g;
            (fb, g2) = create_node (Gain (feedback (delay parameters))) g1;
            (wetGain, g3) = create_node (Gain (dl_wetLevel (delay parameters))) g2;
            (dryGain, g4) = create_node (Gain (dl_dryLevel (delay parameters))) g3;
            (outputGain, g5) = create_node (Gain 1) g4
        in Inr (connect dryGain (NodeInput outputGain)
                 (connect currentNode (NodeInput dryGain)
                   (connect wetGain (NodeInput outputGain)
                     (connect del (NodeInput wetGain)
                       (connect fb (NodeInput del)
                         (connect del (NodeInput fb)
                           (connect currentNode (NodeInput del) g5)))))),
                outputGain))
     else if effectType = ''chorus'' then
       (let (del, g1) = create_node (Delay (5 / 100) (2 / 100)) g;
            (lfo, g2) = create_node (Oscillator (rate (chorus parameters))) g1;
            (lfoGain, g3) = create_node (Gain (depth (chorus parameters) * (1 / 100))) g2;
            (wetGain, g4) = create_node (Gain (ch_wetLevel (chorus parameters))) g3;
            (dryGain, g5) = create_node (Gain (ch_dryLevel (chorus parameters))) g4;
            (outputGain, g6) = create_node (Gain 1) g5
        in Inr (connect dryGain (NodeInput outputGain)
                 (connect currentNode (NodeInput dryGain)
                   (connect wetGain (NodeInput outputGain)
                     (connect del (NodeInput wetGain)
                       (connect currentNode (NodeInput del)
                         (connect lfoGain (DelayTimeParam del)
                           (connect lfo (NodeInput lfoGain) g6)))))),
                outputGain))
     else Inr (g, currentNode))"

text \<open>The loop over the active effects, in their order; an exception ends it.\<close>
fun apply_effects ::
  "nat \<Rightarrow> effect_parameters \<Rightarrow> string list \<Rightarrow> audio_graph \<times> nat \<Rightarrow>
   graph_exception + audio_graph \<times> nat" where
  "apply_effects rate_hz parameters [] gc = Inr gc"
| "apply_effects rate_hz parameters (e # es) gc =
     (case apply_effect rate_hz parameters e gc of
        Inl x \<Rightarrow> Inl x
      | Inr gc' \<Rightarrow> apply_effects rate_hz parameters es gc')"

text \<open>
  Lines 164 to 312: the context with its destination (node 0), the source
  (node 1), the effects, and the connection of the last node to the
  destination.
\<close>
definition effects_graph ::
  "nat \<Rightarrow> effect_parameters \<Rightarrow> string list \<Rightarrow> graph_exception + audio_graph" where
  "effects_graph rate_hz parameters activeEffects =
     (let (source, g) = create_node BufferSource \<lparr> nodes = [Destination], connections = [] \<rparr>
      in case apply_effects rate_hz parameters activeEffects (g, source) of
           Inl x \<Rightarrow> Inl x
         | Inr (g', currentNode) \<Rightarrow> Inr (connect currentNode (NodeInput 0) g'))"

text \<open>
  \<^verbatim>\<open>processAudioWithEffects\<close>.  \<open>decoded\<close> is the buffer that
  \<^verbatim>\<open>decodeAudioData\<close> makes of the session's blob (\<open>None\<close> without a session
  blob or when decoding fails), \<open>render\<close> is the platform's
  \<^verbatim>\<open>startRendering\<close> on the graph and the source buffer.  The result is the
  processed blob; it is \<open>None\<close> when the function returns at once or catches an
  exception.
\<close>
definition processAudioWithEffects ::
  "(audio_graph \<Rightarrow> audio_buffer \<Rightarrow> audio_buffer) \<Rightarrow> audio_buffer option \<Rightarrow>
   effect_parameters \<Rightarrow> string list \<Rightarrow> wav_blob option" where
  "processAudioWithEffects render decoded parameters activeEffects =
     (if activeEffects = [] then None
      else (case decoded of
              None \<Rightarrow> None
            | Some audioBuffer \<Rightarrow>
               (case effects_graph (sampleRate audioBuffer) parameters activeEffects of
                  Inl x \<Rightarrow> None
                | Inr g \<Rightarrow> Some (audioBufferToWav (render g audioBuffer)))))"

text \<open>
  What one effect adds to the graph, read off its case in the loop: the nodes
  in the order of their creation, and the connections when the effect reads
  from the node \<open>input\<close> and its first node gets the index \<open>base\<close>.  The last
  node of every effect is its output.
\<close>
definition stage_nodes :: "nat \<Rightarrow> effect_parameters \<Rightarrow> string \<Rightarrow> audio_node list" where
  "stage_nodes rate_hz parameters effectType =
     (if effectType = ''equalizer''
      then [BiquadFilter ''lowshelf'' 320 1 (lowGain (equalizer parameters)),
            BiquadFilter ''peaking'' 1000 1 (midGain (equalizer parameters)),
            BiquadFilter ''highshelf'' 3200 1 (highGain (equalizer parameters))]
      else if effectType = ''compressor''
      then [DynamicsCompressor (threshold (compressor parameters))
              (ratio (compressor parameters)) (attack (compressor parameters))
              (release (compressor parameters))]
      else if effectType = ''reverb''
      then [Convolver (nat \<lfloor>real rate_hz * roomSize (reverb parameters) * 4\<rfloor>)
              (damping (reverb parameters)),
            Gain (rv_wetLevel (reverb parameters)),
            Gain (rv_dryLevel (reverb parameters)),
            Gain 1]
      else if effectType = ''delay''
      then [Delay 1 (delayTime (delay parameters)),
            Gain (feedback (delay parameters)),
            Gain (dl_wetLevel (delay parameters)),
            Gain (dl_dryLevel (delay parameters)),
            Gain 1]
      else if effectType = ''chorus''
      then [Delay (5 / 100) (2 / 100),
            Oscillator (rate (chorus parameters)),
            Gain (depth (chorus parameters) * (1 / 100)),
            Gain (ch_wetLevel (chorus parameters)),
            Gain (ch_dryLevel (chorus parameters)),
            Gain 1]
      else [])"

definition stage_connections ::
  "string \<Rightarrow> nat \<Rightarrow> nat \<Rightarrow> (nat \<times> connection_target) list" where
  "stage_connections effectType input base =
     (if effectType = ''equalizer''
      then [(input, NodeInput base),
            (base, NodeInput (base + 1)),
            (base + 1, NodeInput (base + 2))]
      else if effectType = ''compressor''
      then [(input, NodeInput base)]
      else if effectType = ''reverb''
      then [(input, NodeInput base),
            (base, NodeInput (base + 1)),
            (base + 1, NodeInput (base + 3)),
            (input, NodeInput (base + 2)),
            (base + 2, NodeInput (base + 3))]
      else if effectType = ''delay''
      then [(input, NodeInput base),
            (base, NodeInput (base + 1)),
            (base + 1, NodeInput base),
            (base, NodeInput (base + 2)),
            (base + 2, NodeInput (base + 4)),
            (input, NodeInput (base + 3)),
            (base + 3, NodeInput (base + 4))]
      else if effectType = ''chorus''
      then [(base + 1, NodeInput (base + 2)),
            (base + 2, DelayTimeParam base),
            (input, NodeInput base),
            (base, NodeInput (base + 3)),
            (base + 3, NodeInput (base + 5)),
            (input, NodeInput (base + 4)),
            (base + 4, NodeInput (base + 5))]
      else [])"

text \<open>
  The connections of a list of effects laid out one after the other from the
  index \<open>base\<close> on, each effect reading from the node just before its own
  first node, which is the output of the effect before it.
\<close>
fun stage_wiring ::
  "nat \<Rightarrow> effect_parameters \<Rightarrow> nat \<Rightarrow> string list \<Rightarrow> (nat \<times> connection_target) list" where
  "stage_wiring rate_hz parameters base [] = []"
| "stage_wiring rate_hz parameters base (e # es) =
     stage_connections e (base - 1) base
     @ stage_wiring rate_hz parameters (base + length (stage_nodes rate_hz parameters e)) es"

text \<open>The five effects of the panel.\<close>
definition effect_names :: "string list" where
  "effect_names = [''equalizer'', ''compressor'', ''reverb'', ''delay'', ''chorus'']"

text \<open>The impulse response of the reverb has at least one frame (line 223).\<close>
definition impulse_frames :: "nat \<Rightarrow> effect_parameters \<Rightarrow> int" where
  "impulse_frames rate_hz parameters = \<lfloor>real rate_hz * roomSize (reverb parameters) * 4\<rfloor>"

text \<open>The default settings of the panel (lines 40 to 70).\<close>
definition default_parameters :: effect_parameters where
  "default_parameters =
     \<lparr> reverb = \<lparr> roomSize = 3 / 10, damping = 1 / 2, rv_wetLevel = 3 / 10, rv_dryLevel = 7 / 10 \<rparr>,
       delay = \<lparr> delayTime = 3 / 10, feedback = 1 / 4, dl_wetLevel = 3 / 10, dl_dryLevel = 7 / 10 \<rparr>,
       chorus = \<lparr> rate = 3 / 2, depth = 3 / 10, ch_wetLevel = 4 / 10, ch_dryLevel = 6 / 10 \<rparr>,
       equalizer = \<lparr> lowGain = 0, midGain = 0, highGain = 0 \<rparr>,
       compressor = \<lparr> threshold = - 24, ratio = 3, attack = 3 / 1000, release = 1 / 4 \<rparr> \<rparr>"

section \<open>Properties\<close>

subsection \<open>Status mapping\<close>

lemma build_updates_status:
  "up_status (build_updates now tr resp) =
     (if rs_status resp = Some ''succeeded'' then Some ''completed'' else rs_status resp)"
  by (simp add: build_updates_def Let_def split: option.splits)

text \<open>
  Of the five statuses of the inference collaborator, three arrive in the
  persisted vocabulary (\<^verbatim>\<open>succeeded\<close> as \<^verbatim>\<open>completed\<close>) and two do not.
\<close>
lemma build_updates_status_persisted:
  assumes "s \<in> set inference_statuses" "rs_status resp = Some s"
  shows "(\<exists>s'. up_status (build_updates now tr resp) = Some s'
            \<and> ai_transformations_status_check s')
         \<longleftrightarrow> s \<noteq> ''starting'' \<and> s \<noteq> ''canceled''"
  using assms
  by (auto simp add: build_updates_status inference_statuses_def
      ai_transformations_status_check_def persisted_statuses_def)

text \<open>
  Claim C7.  The claim says that every status of the inference collaborator is
  mapped into the persisted vocabulary.  The code maps only \<^verbatim>\<open>succeeded\<close>; on
  the status \<^verbatim>\<open>canceled\<close> of a stored transformation with a prediction id the
  update carries \<^verbatim>\<open>canceled\<close> itself, which the table's CHECK constraint
  refuses, and the polling test of line 331 does not recognise it either.  The
  same holds for \<^verbatim>\<open>starting\<close>.
\<close>
theorem checkTransformationStatus_stores_verbatim:
  "map_option up_status
     (checkTransformationStatus 1000
        (Some \<lparr> tr_id = ''t1'', tr_status = ''processing'',
                replicate_prediction_id = Some ''p1'', tr_started_at = Some 0 \<rparr>)
        (Some \<lparr> rs_success = True, rs_status = Some ''canceled'',
                rs_output = OutUndefined, rs_error = None \<rparr>))
     = Some (Some ''canceled'')
   \<and> \<not> ai_transformations_status_check ''canceled''
   \<and> \<not> stops_polling \<lparr> rs_success = True, rs_status = Some ''canceled'',
                          rs_output = OutUndefined, rs_error = None \<rparr>
   \<and> map_option up_status
     (checkTransformationStatus 1000
        (Some \<lparr> tr_id = ''t1'', tr_status = ''pending'',
                replicate_prediction_id = Some ''p1'', tr_started_at = None \<rparr>)
        (Some \<lparr> rs_success = True, rs_status = Some ''starting'',
                rs_output = OutUndefined, rs_error = None \<rparr>))
     = Some (Some ''starting'')
   \<and> \<not> ai_transformations_status_check ''starting''"
  by (simp add: checkTransformationStatus_def build_updates_status
      ai_transformations_status_check_def persisted_statuses_def stops_polling_def)

subsection \<open>Recording\<close>

lemma fold_ondataavailable_mimeType:
  "rec_mimeType (fold ondataavailable szs r) = rec_mimeType r"
  by (induction szs arbitrary: r) (simp_all add: ondataavailable_def)

text \<open>
  Claim C10.  Whatever the platform supports and whatever chunks arrive, the
  blob that \<^verbatim>\<open>stopRecording\<close> resolves with carries the type
  \<^verbatim>\<open>audio/webm\<close>, while the recorder was created for the first supported
  container of the preference list; on a platform that supports only
  \<^verbatim>\<open>audio/mp4\<close> that container is \<^verbatim>\<open>audio/mp4\<close>, so the hint differs from it.
\<close>
theorem stopRecording_type_fixed:
  "(\<exists>b. stopRecording (Some (record_session isTypeSupported szs)) = Some b
        \<and> blob_type b = ''audio/webm'')
   \<and> rec_mimeType (record_session isTypeSupported szs) = select_mimeType isTypeSupported
   \<and> select_mimeType (\<lambda>t. t = ''audio/mp4'') = ''audio/mp4''
   \<and> select_mimeType (\<lambda>t. t = ''audio/ogg;codecs=opus'') = ''audio/ogg;codecs=opus''"
  by (simp add: stopRecording_def record_session_def fold_ondataavailable_mimeType
      startRecording_def select_mimeType_def supportedTypes_def)

subsection \<open>Duration resolver\<close>

lemma fold_dispatch_not_listening:
  "\<not> listening st \<Longrightarrow> fold (dispatch env sz) evs st = st"
  by (induction evs) (simp_all add: dispatch_def)

lemma dispatch_resolved:
  "resolved st \<Longrightarrow> dispatch env sz ev st = st"
  by (cases ev) (simp_all add: dispatch_def onDuration_def resolveWithDuration_def onError_def)

lemma fold_dispatch_resolved:
  "resolved st \<Longrightarrow> fold (dispatch env sz) evs st = st"
  by (induction evs) (simp_all add: dispatch_resolved)

lemma tryWebAudioAPI_pending:
  "tryWebAudioAPI env sz None =
     Some (case strategy_decode (decoded_duration env) of
             Some d \<Rightarrow> Resolved d
           | None \<Rightarrow>
              (case strategy_size sz of
                 Some d \<Rightarrow> Resolved d
               | None \<Rightarrow> Rejected ''Could not determine audio duration''))"
  by (simp add: tryWebAudioAPI_def tryEstimateFromSize_def resolve_def reject_def
      strategy_decode_def strategy_size_def estimatedDuration_def split: option.splits)

lemma tryWebAudioAPI_settled: "tryWebAudioAPI env sz (Some s) = Some s"
  by (simp add: tryWebAudioAPI_def tryEstimateFromSize_def resolve_def reject_def
      split: option.splits)

lemma dispatch_error_initial:
  "dispatch env sz ErrorEvent \<lparr> resolved = False, listening = True, promise_of = None \<rparr> =
     \<lparr> resolved = False, listening = False, promise_of = tryWebAudioAPI env sz None \<rparr>"
  by (simp add: dispatch_def onError_def cleanup_def)

lemma dispatch_valid_initial:
  assumes "event_duration ev = Some d" "isFinite d" "gt0 d"
  shows "dispatch env sz ev \<lparr> resolved = False, listening = True, promise_of = None \<rparr> =
     \<lparr> resolved = True, listening = True, promise_of = Some (Resolved (to_real d)) \<rparr>"
proof -
  have t: "truthy d" using assms by (cases d) auto
  show ?thesis using assms t
    by (cases ev)
      (simp_all add: dispatch_def onDuration_def resolveWithDuration_def cleanup_def resolve_def)
qed

lemma dispatch_invalid_initial:
  assumes "event_duration ev = Some d" "\<not> (isFinite d \<and> gt0 d)"
  shows "dispatch env sz ev \<lparr> resolved = False, listening = True, promise_of = None \<rparr> =
     \<lparr> resolved = False, listening = True, promise_of = None \<rparr>"
  using assms by (cases ev) (auto simp add: dispatch_def onDuration_def)

text \<open>
  The element strategy, event by event: an error hands over to the decoder at
  once (the timer then finds the promise settled), a valid duration settles the
  promise, anything else waits for the next event or the timer.
\<close>
lemma tryAudioElement_events:
  "promise_of (onTimeout env sz (fold (dispatch env sz) evs
       \<lparr> resolved = False, listening = True, promise_of = None \<rparr>))
    = (case strategy_element evs of
         Some d \<Rightarrow> Some (Resolved d)
       | None \<Rightarrow> tryWebAudioAPI env sz None)"
proof (induction evs)
  case Nil
  then show ?case by (simp add: onTimeout_def cleanup_def)
next
  case (Cons ev evs)
  show ?case
  proof (cases "event_duration ev")
    case None
    then have ev: "ev = ErrorEvent" by (cases ev) auto
    show ?thesis
      by (simp add: ev dispatch_error_initial fold_dispatch_not_listening onTimeout_def
          cleanup_def tryWebAudioAPI_pending tryWebAudioAPI_settled)
  next
    case (Some d)
    show ?thesis
    proof (cases "isFinite d \<and> gt0 d")
      case True
      then show ?thesis using Some
        by (simp add: dispatch_valid_initial fold_dispatch_resolved onTimeout_def)
    next
      case False
      then show ?thesis using Some Cons.IH
        by (auto simp add: dispatch_invalid_initial)
    qed
  qed
qed

lemma getAudioDuration_chain:
  "getAudioDuration env b = Some (resolveDuration_chain env (blob_size b))"
  by (simp add: getAudioDuration_def tryAudioElement_def tryAudioElement_events
      resolveDuration_chain_def tryWebAudioAPI_pending split: option.splits)

text \<open>
  Claim C1.  For every blob and every behaviour of the platform the promise of
  \<^verbatim>\<open>getAudioDuration\<close> settles, with the outcome of the ordered chain element,
  decode, size estimate.  It is rejected if and only if all three strategies
  give nothing.  When the element and the decoder both give nothing, it resolves
  with \<open>size * 8 / 128000\<close> exactly when that number lies strictly between 0 and
  3600, and is rejected otherwise.
\<close>
theorem getAudioDuration_strategies:
  "getAudioDuration env b = Some (resolveDuration_chain env (blob_size b))
   \<and> ((\<exists>m. getAudioDuration env b = Some (Rejected m)) \<longleftrightarrow>
        strategy_element (element_events env) = None
        \<and> strategy_decode (decoded_duration env) = None
        \<and> strategy_size (blob_size b) = None)
   \<and> (strategy_element (element_events env) = None
        \<and> strategy_decode (decoded_duration env) = None \<longrightarrow>
        (if 0 < real (blob_size b) * 8 / 128000 \<and> real (blob_size b) * 8 / 128000 < 3600
         then getAudioDuration env b = Some (Resolved (real (blob_size b) * 8 / 128000))
         else getAudioDuration env b = Some (Rejected ''Could not determine audio duration'')))"
  by (auto simp add: getAudioDuration_chain resolveDuration_chain_def strategy_size_def
      split: option.splits)

text \<open>
  A blob of 32000 bytes whose element reports an infinite duration and then
  fails, and which does not decode: the estimate of 2 seconds is the answer.
\<close>
theorem getAudioDuration_strategies_witness:
  "strategy_element [LoadedMetadata PosInf, ErrorEvent] = None
   \<and> strategy_decode None = None
   \<and> getAudioDuration
        \<lparr> element_events = [LoadedMetadata PosInf, ErrorEvent], decoded_duration = None \<rparr>
        \<lparr> blob_parts = [32000], blob_type = ''audio/webm'' \<rparr> = Some (Resolved 2)"
  using getAudioDuration_strategies
    [of "\<lparr> element_events = [LoadedMetadata PosInf, ErrorEvent], decoded_duration = None \<rparr>"
        "\<lparr> blob_parts = [32000], blob_type = ''audio/webm'' \<rparr>"]
  by (simp add: strategy_decode_def blob_size_def resolveDuration_chain_def strategy_size_def)

subsection \<open>Track settings of the transport\<close>

lemma map_of_refs_set: "map_of (refs_set k a refs) = (map_of refs)(k \<mapsto> a)"
  by (induction refs) (auto simp: fun_eq_iff)

lemma map_of_remove_stale:
  "map_of (remove_stale ts refs) k = (if k \<in> set (map track_id ts) then map_of refs k else None)"
  unfolding remove_stale_def by (induction refs) auto

lemma volume_product_range:
  "0 \<le> (v::real) \<Longrightarrow> v \<le> 1 \<Longrightarrow> 0 \<le> m \<Longrightarrow> m \<le> 1 \<Longrightarrow>
     0 \<le> v * m * (if b then 0 else 1) \<and> v * m * (if b then 0 else 1) \<le> 1"
  by (simp add: mult_le_one)

lemma apply_track_settings_session:
  assumes "sessions (track_id t) = Some s" "ts_audioUrl s \<noteq> []"
    and "0 \<le> volume t" "volume t \<le> 1" "0 \<le> mv" "mv \<le> 1"
  shows "\<exists>a. apply_track_settings ts sessions mv t refs = (refs_set (track_id t) a refs, None)
           \<and> el_volume a = volume t * mv * (if is_muted t then 0 else 1)
           \<and> el_muted a = (is_muted t \<or> (list_ex is_solo ts \<and> \<not> is_solo t))"
  using assms volume_product_range[of "volume t" mv "is_muted t"]
  by (cases "is_muted t") (auto simp add: apply_track_settings_def Let_def set_volume_def)

lemma apply_track_settings_other:
  assumes "0 \<le> volume t" "volume t \<le> 1" "0 \<le> mv" "mv \<le> 1"
  shows "\<exists>refs'. apply_track_settings ts sessions mv t refs = (refs', None)
           \<and> (\<forall>k. k \<noteq> track_id t \<longrightarrow> map_of refs' k = map_of refs k)"
  using assms volume_product_range[of "volume t" mv "is_muted t"]
  by (cases "is_muted t")
    (auto simp add: apply_track_settings_def Let_def set_volume_def map_of_refs_set
      split: option.splits)

lemma apply_all_track_settings_element:
  assumes "distinct (map track_id rest)"
    and "\<forall>t\<in>set rest. 0 \<le> volume t \<and> volume t \<le> 1" "0 \<le> mv" "mv \<le> 1"
  shows "\<exists>refs'. apply_all_track_settings ts sessions mv rest refs = (refs', None)
          \<and> (\<forall>k. k \<notin> set (map track_id rest) \<longrightarrow> map_of refs' k = map_of refs k)
          \<and> (\<forall>t\<in>set rest. \<forall>s. sessions (track_id t) = Some s \<and> ts_audioUrl s \<noteq> [] \<longrightarrow>
                (\<exists>a. map_of refs' (track_id t) = Some a
                   \<and> el_volume a = volume t * mv * (if is_muted t then 0 else 1)
                   \<and> el_muted a = (is_muted t \<or> (list_ex is_solo ts \<and> \<not> is_solo t))))"
  using assms(1,2)
proof (induction rest arbitrary: refs)
  case Nil
  then show ?case by simp
next
  case (Cons t rest)
  have vt: "0 \<le> volume t" "volume t \<le> 1" using Cons.prems by auto
  obtain refs1 where r1: "apply_track_settings ts sessions mv t refs = (refs1, None)"
    and o1: "\<forall>k. k \<noteq> track_id t \<longrightarrow> map_of refs1 k = map_of refs k"
    using apply_track_settings_other[OF vt assms(3,4)] by blast
  have d: "distinct (map track_id rest)" and v: "\<forall>t\<in>set rest. 0 \<le> volume t \<and> volume t \<le> 1"
    and nt: "track_id t \<notin> set (map track_id rest)"
    using Cons.prems by auto
  obtain refs' where r': "apply_all_track_settings ts sessions mv rest refs1 = (refs', None)"
    and o': "\<forall>k. k \<notin> set (map track_id rest) \<longrightarrow> map_of refs' k = map_of refs1 k"
    and e': "\<forall>t\<in>set rest. \<forall>s. sessions (track_id t) = Some s \<and> ts_audioUrl s \<noteq> [] \<longrightarrow>
                (\<exists>a. map_of refs' (track_id t) = Some a
                   \<and> el_volume a = volume t * mv * (if is_muted t then 0 else 1)
                   \<and> el_muted a = (is_muted t \<or> (list_ex is_solo ts \<and> \<not> is_solo t)))"
    using Cons.IH[OF d v, of refs1] by blast
  have res: "apply_all_track_settings ts sessions mv (t # rest) refs = (refs', None)"
    using r1 r' by simp
  have other: "\<forall>k. k \<notin> set (map track_id (t # rest)) \<longrightarrow> map_of refs' k = map_of refs k"
    using o1 o' by auto
  have here: "\<forall>s. sessions (track_id t) = Some s \<and> ts_audioUrl s \<noteq> [] \<longrightarrow>
                (\<exists>a. map_of refs' (track_id t) = Some a
                   \<and> el_volume a = volume t * mv * (if is_muted t then 0 else 1)
                   \<and> el_muted a = (is_muted t \<or> (list_ex is_solo ts \<and> \<not> is_solo t)))"
  proof (intro allI impI)
    fix s assume s: "sessions (track_id t) = Some s \<and> ts_audioUrl s \<noteq> []"
    obtain a where a: "apply_track_settings ts sessions mv t refs = (refs_set (track_id t) a refs, None)"
      and av: "el_volume a = volume t * mv * (if is_muted t then 0 else 1)"
      and am: "el_muted a = (is_muted t \<or> (list_ex is_solo ts \<and> \<not> is_solo t))"
      using apply_track_settings_session[OF _ _ vt assms(3,4), of sessions s ts refs] s by blast
    have "refs1 = refs_set (track_id t) a refs" using a r1 by simp
    then have "map_of refs' (track_id t) = Some a" using o' nt by (simp add: map_of_refs_set)
    then show "\<exists>a. map_of refs' (track_id t) = Some a
                   \<and> el_volume a = volume t * mv * (if is_muted t then 0 else 1)
                   \<and> el_muted a = (is_muted t \<or> (list_ex is_solo ts \<and> \<not> is_solo t))"
      using av am by blast
  qed
  show ?case using res other here e' by auto
qed

lemma track_settings_effect_element:
  assumes "distinct (map track_id ts)"
    and "\<forall>t\<in>set ts. 0 \<le> volume t \<and> volume t \<le> 1" "0 \<le> mv" "mv \<le> 1"
    and "t \<in> set ts" "sessions (track_id t) = Some s" "ts_audioUrl s \<noteq> []"
  shows "\<exists>refs' a. track_settings_effect ts sessions mv refs = (refs', None)
          \<and> refs_get refs' (track_id t) = Some a
          \<and> el_volume a = volume t * mv * (if is_muted t then 0 else 1)
          \<and> el_muted a = (is_muted t \<or> (list_ex is_solo ts \<and> \<not> is_solo t))"
proof -
  obtain refs1 where r: "apply_all_track_settings ts sessions mv ts refs = (refs1, None)"
    and e: "\<forall>t\<in>set ts. \<forall>s. sessions (track_id t) = Some s \<and> ts_audioUrl s \<noteq> [] \<longrightarrow>
                (\<exists>a. map_of refs1 (track_id t) = Some a
                   \<and> el_volume a = volume t * mv * (if is_muted t then 0 else 1)
                   \<and> el_muted a = (is_muted t \<or> (list_ex is_solo ts \<and> \<not> is_solo t)))"
    using apply_all_track_settings_element[OF assms(1-4), of ts sessions refs] by blast
  obtain a where a: "map_of refs1 (track_id t) = Some a"
      "el_volume a = volume t * mv * (if is_muted t then 0 else 1)"
      "el_muted a = (is_muted t \<or> (list_ex is_solo ts \<and> \<not> is_solo t))"
    using e assms(5-7) by blast
  have "track_settings_effect ts sessions mv refs = (remove_stale ts refs1, None)"
    using r by (simp add: track_settings_effect_def)
  moreover have "refs_get (remove_stale ts refs1) (track_id t) = Some a"
    using a(1) assms(5) by (simp add: refs_get_def map_of_remove_stale)
  ultimately show ?thesis using a(2,3) by blast
qed









text \<open>
  Claim C8, as amended.  With \<open>A\<close> soloed and \<open>B\<close>, \<open>C\<close> not, all three
  with a session and volumes in range, \<open>B\<close> and \<open>C\<close> are silent whatever their
  mute flags, and \<open>A\<close> is audible exactly when it is not muted.
\<close>
theorem solo_with_mute:
  assumes "is_solo A" "\<not> is_solo B" "\<not> is_solo C"
    and "distinct [track_id A, track_id B, track_id C]"
    and "\<forall>u\<in>set [A, B, C]. 0 \<le> volume u \<and> volume u \<le> 1" "0 \<le> mv" "mv \<le> 1"
    and "\<forall>u\<in>set [A, B, C]. \<exists>s. sessions (track_id u) = Some s \<and> ts_audioUrl s \<noteq> []"
  shows "\<exists>refs'. track_settings_effect [A, B, C] sessions mv refs = (refs', None)
      \<and> (audible refs' (track_id A) \<longleftrightarrow> \<not> is_muted A)
      \<and> \<not> audible refs' (track_id B)
      \<and> \<not> audible refs' (track_id C)"
proof -
  have d: "distinct (map track_id [A, B, C])" using assms(4) by simp
  obtain sa sb sc where s:
    "sessions (track_id A) = Some sa" "ts_audioUrl sa \<noteq> []"
    "sessions (track_id B) = Some sb" "ts_audioUrl sb \<noteq> []"
    "sessions (track_id C) = Some sc" "ts_audioUrl sc \<noteq> []"
    using assms(8) by auto
  obtain r1 a where a: "track_settings_effect [A, B, C] sessions mv refs = (r1, None)"
     "refs_get r1 (track_id A) = Some a"
     "el_muted a = (is_muted A \<or> (list_ex is_solo [A, B, C] \<and> \<not> is_solo A))"
    using track_settings_effect_element
      [where ts = "[A, B, C]" and mv = mv and t = A and sessions = sessions and s = sa
         and refs = refs]
      d assms(5-7) s by auto
  obtain r2 b where b: "track_settings_effect [A, B, C] sessions mv refs = (r2, None)"
     "refs_get r2 (track_id B) = Some b"
     "el_muted b = (is_muted B \<or> (list_ex is_solo [A, B, C] \<and> \<not> is_solo B))"
    using track_settings_effect_element
      [where ts = "[A, B, C]" and mv = mv and t = B and sessions = sessions and s = sb
         and refs = refs]
      d assms(5-7) s by auto
  obtain r3 c where c: "track_settings_effect [A, B, C] sessions mv refs = (r3, None)"
     "refs_get r3 (track_id C) = Some c"
     "el_muted c = (is_muted C \<or> (list_ex is_solo [A, B, C] \<and> \<not> is_solo C))"
    using track_settings_effect_element
      [where ts = "[A, B, C]" and mv = mv and t = C and sessions = sessions and s = sc
         and refs = refs]
      d assms(5-7) s by auto
  have "r2 = r1" "r3 = r1" using a(1) b(1) c(1) by simp_all
  then show ?thesis using a b c assms(1-3) by (auto simp add: audible_def)
qed

text \<open>The soloed track \<^verbatim>\<open>a\<close>, not muted, beside \<^verbatim>\<open>b\<close> and \<^verbatim>\<open>c\<close>.\<close>
theorem solo_with_mute_witness:
  "\<exists>refs'. track_settings_effect
       [example_track ''a'' 3 1 False True 1, example_track ''b'' 5 1 False False 2,
        example_track ''c'' 2 1 False False 3] example_sessions 1 [] = (refs', None)
      \<and> audible refs' ''a'' \<and> \<not> audible refs' ''b'' \<and> \<not> audible refs' ''c''"
  using solo_with_mute
    [of "example_track ''a'' 3 1 False True 1" "example_track ''b'' 5 1 False False 2"
        "example_track ''c'' 2 1 False False 3" 1 example_sessions "[]"]
  by (simp add: example_track_def example_sessions_def)

text \<open>
  Claim C8 as stated fails: a track that is soloed and muted is silent, because
  line 41 mutes the element of every muted track first.
\<close>
theorem soloed_muted_track_is_silent:
  "\<not> audible
       (fst (track_settings_effect
          [example_track ''a'' 3 1 True True 1, example_track ''b'' 5 1 False False 2,
           example_track ''c'' 2 1 False False 3] example_sessions 1 []))
       ''a''"
  by (simp add: track_settings_effect_def apply_track_settings_def example_track_def
      example_sessions_def refs_get_def new_Audio_def load_element_def set_volume_def
      remove_stale_def audible_def Let_def)

subsection \<open>Logical duration and the end of playback\<close>

lemma fold_max_Max: "fold max xs (a::'a::linorder) = Max (insert a (set xs))"
proof -
  have "fold max xs a = Max (set (a # xs))" by (simp only: Max.set_eq_fold)
  then show ?thesis by simp
qed

lemma master_duration_Max:
  "master_duration ts = Max (insert 0 (duration_seconds ` set ts))"
  by (simp add: master_duration_def fold_max_Max)

lemma master_duration_nonneg:
  assumes "ts \<noteq> []" "\<forall>t\<in>set ts. 0 \<le> duration_seconds t"
  shows "master_duration ts = Max (duration_seconds ` set ts)"
proof -
  let ?D = "duration_seconds ` set ts"
  have fin: "finite ?D" and ne: "?D \<noteq> {}" using assms(1) by auto
  obtain t0 where t0: "t0 \<in> set ts" using assms(1) by (cases ts) auto
  have "0 \<le> duration_seconds t0" using assms(2) t0 by blast
  moreover have "duration_seconds t0 \<le> Max ?D" using t0 fin by simp
  ultimately have "0 \<le> Max ?D" by linarith
  then have "Max (insert 0 ?D) = Max ?D" using fin ne by (simp add: max_def)
  then show ?thesis by (simp add: master_duration_Max)
qed

lemma updateTime_end:
  assumes "isPlaying p" "first_playing (audioRefs p) = Some a" "duration p \<le> el_currentTime a"
  shows "\<not> isPlaying (updateTime p) \<and> currentTime (updateTime p) = 0
       \<and> map fst (audioRefs (updateTime p)) = map fst (audioRefs p)
       \<and> (\<forall>e\<in>set (map snd (audioRefs (updateTime p))). el_paused e \<and> el_currentTime e = 0)"
  using assms by (auto simp add: updateTime_def Let_def split: prod.splits)

text \<open>
  Claim C5.  The logical duration is 0 without tracks and the greatest
  \<open>duration_seconds\<close> otherwise (durations are not negative); in general it is
  the greatest of 0 and the durations.  When the player is playing and the first
  element that is not paused has reached the logical duration, one run of
  \<^verbatim>\<open>updateTime\<close> clears the playing flag, puts the playhead at 0 and leaves
  every element paused at time 0.
\<close>
theorem transport_duration_and_end:
  "master_duration [] = 0
   \<and> master_duration ts = Max (insert 0 (duration_seconds ` set ts))
   \<and> (ts \<noteq> [] \<and> (\<forall>t\<in>set ts. 0 \<le> duration_seconds t) \<longrightarrow>
         master_duration ts = Max (duration_seconds ` set ts))
   \<and> duration (duration_effect ts p) = master_duration ts
   \<and> (isPlaying p \<and> first_playing (audioRefs p) = Some a
        \<and> master_duration ts \<le> el_currentTime a \<longrightarrow>
         \<not> isPlaying (updateTime (duration_effect ts p))
         \<and> currentTime (updateTime (duration_effect ts p)) = 0
         \<and> map fst (audioRefs (updateTime (duration_effect ts p))) = map fst (audioRefs p)
         \<and> (\<forall>e\<in>set (map snd (audioRefs (updateTime (duration_effect ts p)))).
               el_paused e \<and> el_currentTime e = 0))"
proof -
  have a: "master_duration [] = 0" by (simp add: master_duration_def)
  have b: "duration (duration_effect ts p) = master_duration ts"
    by (simp add: duration_effect_def)
  have c: "isPlaying p \<and> first_playing (audioRefs p) = Some a
        \<and> master_duration ts \<le> el_currentTime a \<longrightarrow>
         \<not> isPlaying (updateTime (duration_effect ts p))
         \<and> currentTime (updateTime (duration_effect ts p)) = 0
         \<and> map fst (audioRefs (updateTime (duration_effect ts p))) = map fst (audioRefs p)
         \<and> (\<forall>e\<in>set (map snd (audioRefs (updateTime (duration_effect ts p)))).
               el_paused e \<and> el_currentTime e = 0)"
    using updateTime_end[of "duration_effect ts p" a] by (simp add: duration_effect_def)
  show ?thesis using a b c master_duration_Max master_duration_nonneg by blast
qed

text \<open>
  Tracks of 3, 5 and 2 seconds: the logical duration is 5, and when the element
  of the second track stands at 5.1 everything is stopped and rewound.
\<close>
theorem transport_duration_and_end_witness:
  "master_duration [example_track ''a'' 3 1 False False 1, example_track ''b'' 5 1 False False 2,
                    example_track ''c'' 2 1 False False 3] = 5
   \<and> updateTime (duration_effect
        [example_track ''a'' 3 1 False False 1, example_track ''b'' 5 1 False False 2,
         example_track ''c'' 2 1 False False 3]
        \<lparr> masterVolume = 1, currentTime = 4.9, isPlaying = True, duration = 0,
          audioRefs = [(''a'', example_element True 3), (''b'', example_element False 5.1),
                       (''c'', example_element True 2)] \<rparr>)
     = \<lparr> masterVolume = 1, currentTime = 0, isPlaying = False, duration = 5,
         audioRefs = [(''a'', example_element True 0), (''b'', example_element True 0),
                      (''c'', example_element True 0)] \<rparr>"
  using transport_duration_and_end
    [of "[example_track ''a'' 3 1 False False 1, example_track ''b'' 5 1 False False 2,
          example_track ''c'' 2 1 False False 3]"
        "\<lparr> masterVolume = 1, currentTime = 4.9, isPlaying = True, duration = 0,
          audioRefs = [(''a'', example_element True 3), (''b'', example_element False 5.1),
                       (''c'', example_element True 2)] \<rparr>"
        "example_element False 5.1"]
  by (simp add: example_track_def example_element_def master_duration_def first_playing_def
      updateTime_def duration_effect_def)

subsection \<open>Solo in the track store\<close>

lemma find_by_id:
  "i \<in> set (map track_id rows) \<Longrightarrow>
     \<exists>r. find (\<lambda>r. track_id r = i) rows = Some r \<and> track_id r = i"
  by (induction rows) auto

lemma track_id_apply_updates: "track_id (apply_updates u r) = track_id r"
  by (simp add: apply_updates_def)

lemma map_track_id_updated:
  "map track_id (map (\<lambda>r. if track_id r = i then apply_updates u r else r) rows)
     = map track_id rows"
  by (induction rows) (simp_all add: track_id_apply_updates)

lemma supabase_update_ok:
  assumes "failure rem = None" "i \<in> set (map track_id (table_rows rem))"
  shows "\<exists>r rem'. supabase_update i u rem = (Inr (apply_updates u r), rem')
           \<and> track_id r = i \<and> failure rem' = None
           \<and> map track_id (table_rows rem') = map track_id (table_rows rem)"
proof -
  obtain r where r: "find (\<lambda>r. track_id r = i) (table_rows rem) = Some r" "track_id r = i"
    using find_by_id[OF assms(2)] by blast
  let ?rem' = "rem\<lparr> table_rows :=
                  map (\<lambda>r. if track_id r = i then apply_updates u r else r) (table_rows rem) \<rparr>"
  have a: "supabase_update i u rem = (Inr (apply_updates u r), ?rem')"
    using assms(1) r(1) by (simp add: supabase_update_def)
  have b: "failure ?rem' = None" using assms(1) by simp
  have c: "map track_id (table_rows ?rem') = map track_id (table_rows rem)"
    using map_track_id_updated[of i u "table_rows rem"] by simp
  show ?thesis using a b c r(2) by blast
qed

lemma updateTrack_ok:
  assumes "failure rem = None" "i \<in> set (map track_id (table_rows rem))"
  shows "\<exists>r st' rem'. updateTrack i u (st, rem) = (True, st', rem')
           \<and> tracks st' = map (\<lambda>t. if track_id t = i then merge_track t (apply_updates u r) else t) (tracks st)
           \<and> track_id r = i \<and> failure rem' = None
           \<and> map track_id (table_rows rem') = map track_id (table_rows rem)"
proof -
  obtain r rem' where s: "supabase_update i u rem = (Inr (apply_updates u r), rem')"
     "track_id r = i" "failure rem' = None"
     "map track_id (table_rows rem') = map track_id (table_rows rem)"
    using supabase_update_ok[OF assms] by blast
  have "updateTrack i u (st, rem) =
     (True,
      st\<lparr> loading := True, store_error := None,
          tracks := map (\<lambda>t. if track_id t = i then merge_track t (apply_updates u r) else t) (tracks st),
          currentTrack := (case currentTrack st of None \<Rightarrow> None
                      | Some c \<Rightarrow> if track_id c = i then Some (merge_track c (apply_updates u r))
                                  else Some c),
          loading := False \<rparr>, rem')"
    using s(1) by (simp add: updateTrack_def Let_def)
  then show ?thesis using s(2-4) by force
qed

lemma updateTrack_failed:
  assumes "failure rem \<noteq> None \<or> i \<notin> set (map track_id (table_rows rem))"
  shows "\<exists>st'. updateTrack i u (st, rem) = (False, st', rem) \<and> tracks st' = tracks st"
proof -
  have "\<exists>e. supabase_update i u rem = (Inl e, rem)"
  proof (cases "failure rem")
    case (Some e) then show ?thesis by (simp add: supabase_update_def)
  next
    case None
    then have "i \<notin> set (map track_id (table_rows rem))" using assms by simp
    then have "find (\<lambda>r. track_id r = i) (table_rows rem) = None"
      by (auto simp add: find_None_iff)
    then show ?thesis using None by (simp add: supabase_update_def)
  qed
  then show ?thesis by (auto simp add: updateTrack_def Let_def)
qed

text \<open>One step of the loop whose update succeeds, position by position.\<close>
lemma solo_step_ok:
  assumes "failure rem = None" "track_id s \<in> set (map track_id (table_rows rem))"
  shows "\<exists>st' rem'. solo_step trackId s (st, rem) = (st', rem')
           \<and> failure rem' = None
           \<and> map track_id (table_rows rem') = map track_id (table_rows rem)
           \<and> length (tracks st') = length (tracks st)
           \<and> (\<forall>j<length (tracks st).
                 track_id (tracks st' ! j) = track_id (tracks st ! j)
                 \<and> (track_id (tracks st ! j) \<noteq> track_id s \<longrightarrow> tracks st' ! j = tracks st ! j)
                 \<and> (track_id (tracks st ! j) = track_id s \<longrightarrow>
                      (is_solo (tracks st' ! j) \<longleftrightarrow> track_id s = trackId)
                      \<and> (track_id s = trackId \<longrightarrow> \<not> is_muted (tracks st' ! j))))"
proof (cases "track_id s = trackId")
  case True
  obtain r st' rem' where u: "updateTrack (track_id s) (no_updates\<lparr> u_is_solo := Some True, u_is_muted := Some False \<rparr>) (st, rem) = (True, st', rem')"
    "tracks st' = map (\<lambda>t. if track_id t = track_id s then merge_track t (apply_updates (no_updates\<lparr> u_is_solo := Some True, u_is_muted := Some False \<rparr>) r) else t) (tracks st)"
    "track_id r = track_id s" "failure rem' = None"
    "map track_id (table_rows rem') = map track_id (table_rows rem)"
    using updateTrack_ok[OF assms, of "no_updates\<lparr> u_is_solo := Some True, u_is_muted := Some False \<rparr>" st] by blast
  have "solo_step trackId s (st, rem) = (st', rem')" using True u(1) by (simp add: solo_step_def)
  then show ?thesis using u(2-5) True
    by (simp add: merge_track_def apply_updates_def no_updates_def)
next
  case False
  obtain r st' rem' where u: "updateTrack (track_id s) (no_updates\<lparr> u_is_solo := Some False \<rparr>) (st, rem) = (True, st', rem')"
    "tracks st' = map (\<lambda>t. if track_id t = track_id s then merge_track t (apply_updates (no_updates\<lparr> u_is_solo := Some False \<rparr>) r) else t) (tracks st)"
    "track_id r = track_id s" "failure rem' = None"
    "map track_id (table_rows rem') = map track_id (table_rows rem)"
    using updateTrack_ok[OF assms, of "no_updates\<lparr> u_is_solo := Some False \<rparr>" st] by blast
  have "solo_step trackId s (st, rem) = (st', rem')" using False u(1) by (simp add: solo_step_def)
  then show ?thesis using u(2-5) False
    by (simp add: merge_track_def apply_updates_def no_updates_def)
qed


lemma fold_solo_step_ok:
  assumes "failure rem = None"
    and "set (map track_id snap) \<subseteq> set (map track_id (table_rows rem))"
  shows "\<exists>st' rem'. fold (solo_step trackId) snap (st, rem) = (st', rem')
     \<and> length (tracks st') = length (tracks st)
     \<and> (\<forall>j<length (tracks st).
          track_id (tracks st' ! j) = track_id (tracks st ! j)
          \<and> (track_id (tracks st ! j) \<notin> set (map track_id snap) \<longrightarrow>
                tracks st' ! j = tracks st ! j)
          \<and> (track_id (tracks st ! j) \<in> set (map track_id snap) \<longrightarrow>
               (is_solo (tracks st' ! j) \<longleftrightarrow> track_id (tracks st ! j) = trackId)
               \<and> (track_id (tracks st ! j) = trackId \<longrightarrow> \<not> is_muted (tracks st' ! j))))"
  using assms
proof (induction snap arbitrary: st rem)
  case Nil
  then show ?case by simp
next
  case (Cons s rest)
  have in_s: "track_id s \<in> set (map track_id (table_rows rem))" using Cons.prems(2) by simp
  obtain st1 rem1 where step: "solo_step trackId s (st, rem) = (st1, rem1)"
    and f1: "failure rem1 = None"
    and ids1: "map track_id (table_rows rem1) = map track_id (table_rows rem)"
    and len1: "length (tracks st1) = length (tracks st)"
    and pos1: "\<forall>j<length (tracks st).
                 track_id (tracks st1 ! j) = track_id (tracks st ! j)
                 \<and> (track_id (tracks st ! j) \<noteq> track_id s \<longrightarrow> tracks st1 ! j = tracks st ! j)
                 \<and> (track_id (tracks st ! j) = track_id s \<longrightarrow>
                      (is_solo (tracks st1 ! j) \<longleftrightarrow> track_id s = trackId)
                      \<and> (track_id s = trackId \<longrightarrow> \<not> is_muted (tracks st1 ! j)))"
    using solo_step_ok[OF Cons.prems(1) in_s, of trackId st] by blast
  have sub: "set (map track_id rest) \<subseteq> set (map track_id (table_rows rem1))"
    using Cons.prems(2) ids1 by simp
  obtain st' rem' where rest: "fold (solo_step trackId) rest (st1, rem1) = (st', rem')"
    and len': "length (tracks st') = length (tracks st1)"
    and pos': "\<forall>j<length (tracks st1).
          track_id (tracks st' ! j) = track_id (tracks st1 ! j)
          \<and> (track_id (tracks st1 ! j) \<notin> set (map track_id rest) \<longrightarrow>
                tracks st' ! j = tracks st1 ! j)
          \<and> (track_id (tracks st1 ! j) \<in> set (map track_id rest) \<longrightarrow>
               (is_solo (tracks st' ! j) \<longleftrightarrow> track_id (tracks st1 ! j) = trackId)
               \<and> (track_id (tracks st1 ! j) = trackId \<longrightarrow> \<not> is_muted (tracks st' ! j)))"
    using Cons.IH[OF f1 sub, of st1] by blast
  have res: "fold (solo_step trackId) (s # rest) (st, rem) = (st', rem')"
    using step rest by simp
  have len: "length (tracks st') = length (tracks st)" using len1 len' by simp
  have pos: "\<forall>j<length (tracks st).
          track_id (tracks st' ! j) = track_id (tracks st ! j)
          \<and> (track_id (tracks st ! j) \<notin> set (map track_id (s # rest)) \<longrightarrow>
                tracks st' ! j = tracks st ! j)
          \<and> (track_id (tracks st ! j) \<in> set (map track_id (s # rest)) \<longrightarrow>
               (is_solo (tracks st' ! j) \<longleftrightarrow> track_id (tracks st ! j) = trackId)
               \<and> (track_id (tracks st ! j) = trackId \<longrightarrow> \<not> is_muted (tracks st' ! j)))"
  proof (intro allI impI)
    fix j assume j: "j < length (tracks st)"
    then have j1: "j < length (tracks st1)" using len1 by simp
    note a = pos1[rule_format, OF j]
    note b = pos'[rule_format, OF j1]
    show "track_id (tracks st' ! j) = track_id (tracks st ! j)
          \<and> (track_id (tracks st ! j) \<notin> set (map track_id (s # rest)) \<longrightarrow>
                tracks st' ! j = tracks st ! j)
          \<and> (track_id (tracks st ! j) \<in> set (map track_id (s # rest)) \<longrightarrow>
               (is_solo (tracks st' ! j) \<longleftrightarrow> track_id (tracks st ! j) = trackId)
               \<and> (track_id (tracks st ! j) = trackId \<longrightarrow> \<not> is_muted (tracks st' ! j)))"
    proof (cases "track_id (tracks st ! j) \<in> set (map track_id rest)")
      case True
      then show ?thesis using a b by auto
    next
      case False
      then show ?thesis using a b by (cases "track_id (tracks st ! j) = track_id s") auto
    qed
  qed
  show ?case using res len pos by blast
qed

lemma filter_by_distinct_key:
  "distinct (map f xs) \<Longrightarrow> length (filter (\<lambda>x. f x = k) xs) \<le> 1"
proof (induction xs)
  case Nil
  then show ?case by simp
next
  case (Cons a xs)
  show ?case
  proof (cases "f a = k")
    case True
    then have "filter (\<lambda>x. f x = k) xs = []"
      using Cons.prems by (force simp add: filter_empty_conv image_iff)
    then show ?thesis using True by simp
  next
    case False
    then show ?thesis using Cons by simp
  qed
qed

lemma soloTrack_unsolo:
  "length (tracks (fst (soloTrack trackId False (st, rem)))) = length (tracks st)
     \<and> (\<forall>j<length (tracks st).
           track_id (tracks st ! j) \<noteq> trackId \<longrightarrow>
             tracks (fst (soloTrack trackId False (st, rem))) ! j = tracks st ! j)
     \<and> (failure rem = None \<and> trackId \<in> set (map track_id (table_rows rem)) \<longrightarrow>
           (\<forall>j<length (tracks st).
              track_id (tracks st ! j) = trackId \<longrightarrow>
                \<not> is_solo (tracks (fst (soloTrack trackId False (st, rem))) ! j)))"
proof (cases "failure rem = None \<and> trackId \<in> set (map track_id (table_rows rem))")
  case True
  obtain r st' rem' where u:
    "updateTrack trackId (no_updates\<lparr> u_is_solo := Some False \<rparr>) (st, rem) = (True, st', rem')"
    "tracks st' = map (\<lambda>t. if track_id t = trackId
        then merge_track t (apply_updates (no_updates\<lparr> u_is_solo := Some False \<rparr>) r) else t) (tracks st)"
    using updateTrack_ok[OF conjunct1[OF True] conjunct2[OF True],
        of "no_updates\<lparr> u_is_solo := Some False \<rparr>" st] by blast
  have "fst (soloTrack trackId False (st, rem)) = st'" using u(1) by (simp add: soloTrack_def)
  then show ?thesis using u(2)
    by (simp add: merge_track_def apply_updates_def no_updates_def)
next
  case False
  obtain st' where u:
    "updateTrack trackId (no_updates\<lparr> u_is_solo := Some False \<rparr>) (st, rem) = (False, st', rem)"
    "tracks st' = tracks st"
    using updateTrack_failed[of rem trackId "no_updates\<lparr> u_is_solo := Some False \<rparr>" st] False
    by auto
  have "fst (soloTrack trackId False (st, rem)) = st'" using u(1) by (simp add: soloTrack_def)
  then show ?thesis using u(2) False by auto
qed

text \<open>
  Line 744: the track of the store is merged with the row the table returns, so
  after a successful unsolo the chosen track is that row, with \<^verbatim>\<open>is_solo\<close>
  cleared and the local \<^verbatim>\<open>audio_url\<close>.
\<close>
lemma merge_track_unsolo:
  "merge_track t (apply_updates (no_updates\<lparr> u_is_solo := Some False \<rparr>) r)
     = (merge_track t r)\<lparr> is_solo := False \<rparr>"
  by (simp add: merge_track_def apply_updates_def no_updates_def)

lemma soloTrack_unsolo_row:
  assumes "failure rem = None"
    and "find (\<lambda>r. track_id r = trackId) (table_rows rem) = Some r"
    and "j < length (tracks st)" "track_id (tracks st ! j) = trackId"
  shows "tracks (fst (soloTrack trackId False (st, rem))) ! j
           = (merge_track (tracks st ! j) r)\<lparr> is_solo := False \<rparr>"
proof -
  have "tracks (fst (soloTrack trackId False (st, rem)))
      = map (\<lambda>t. if track_id t = trackId
                   then merge_track t (apply_updates (no_updates\<lparr> u_is_solo := Some False \<rparr>) r)
                   else t) (tracks st)"
    using assms(1,2) by (simp add: soloTrack_def updateTrack_def supabase_update_def Let_def)
  then show ?thesis using assms(3,4) by (simp add: merge_track_unsolo)
qed

text \<open>
  Claim C9, as amended.  Track ids are distinct, requests reach the table and
  every track of the store has a row there, so that every update succeeds.
  After \<^verbatim>\<open>soloTrack(trackId, true)\<close> a track of the store is soloed exactly when
  it is the chosen one, the chosen one is not muted, and at most one track is
  soloed.  After \<^verbatim>\<open>soloTrack(trackId, false)\<close> every other track is what it
  was, and the chosen track is the row of the table with \<^verbatim>\<open>is_solo\<close> cleared
  (and the local \<^verbatim>\<open>audio_url\<close>); so when the rows of the table with that id
  agree with the store's track, the call only clears \<^verbatim>\<open>is_solo\<close> on it:
  volume, pan, mute flag and order stay.
\<close>
theorem soloTrack_flags:
  assumes "failure rem = None"
    and "set (map track_id (tracks st)) \<subseteq> set (map track_id (table_rows rem))"
    and "distinct (map track_id (tracks st))"
  shows "(\<forall>t\<in>set (tracks (fst (soloTrack trackId True (st, rem)))).
            (is_solo t \<longleftrightarrow> track_id t = trackId) \<and> (track_id t = trackId \<longrightarrow> \<not> is_muted t))
     \<and> length (filter is_solo (tracks (fst (soloTrack trackId True (st, rem))))) \<le> 1
     \<and> map track_id (tracks (fst (soloTrack trackId True (st, rem)))) = map track_id (tracks st)
     \<and> length (tracks (fst (soloTrack trackId False (st, rem)))) = length (tracks st)
     \<and> (\<forall>j<length (tracks st).
           (track_id (tracks st ! j) \<noteq> trackId \<longrightarrow>
              tracks (fst (soloTrack trackId False (st, rem))) ! j = tracks st ! j)
           \<and> (track_id (tracks st ! j) = trackId \<longrightarrow>
              \<not> is_solo (tracks (fst (soloTrack trackId False (st, rem))) ! j)))
     \<and> (\<forall>j<length (tracks st).
           track_id (tracks st ! j) = trackId \<longrightarrow>
             (\<exists>r. find (\<lambda>r. track_id r = trackId) (table_rows rem) = Some r
                \<and> tracks (fst (soloTrack trackId False (st, rem))) ! j
                    = (merge_track (tracks st ! j) r)\<lparr> is_solo := False \<rparr>))
     \<and> (\<forall>j<length (tracks st).
           track_id (tracks st ! j) = trackId
           \<and> (\<forall>r\<in>set (table_rows rem).
                  track_id r = trackId \<longrightarrow> merge_track (tracks st ! j) r = tracks st ! j) \<longrightarrow>
             tracks (fst (soloTrack trackId False (st, rem))) ! j
               = (tracks st ! j)\<lparr> is_solo := False \<rparr>)"
proof -
  obtain st' rem' where f: "fold (solo_step trackId) (tracks st) (st, rem) = (st', rem')"
    and len: "length (tracks st') = length (tracks st)"
    and pos: "\<forall>j<length (tracks st).
          track_id (tracks st' ! j) = track_id (tracks st ! j)
          \<and> (track_id (tracks st ! j) \<notin> set (map track_id (tracks st)) \<longrightarrow>
                tracks st' ! j = tracks st ! j)
          \<and> (track_id (tracks st ! j) \<in> set (map track_id (tracks st)) \<longrightarrow>
               (is_solo (tracks st' ! j) \<longleftrightarrow> track_id (tracks st ! j) = trackId)
               \<and> (track_id (tracks st ! j) = trackId \<longrightarrow> \<not> is_muted (tracks st' ! j)))"
    using fold_solo_step_ok[OF assms(1,2), of trackId st] by blast
  have s1: "fst (soloTrack trackId True (st, rem)) = st'" using f by (simp add: soloTrack_def)
  have ids: "map track_id (tracks st') = map track_id (tracks st)"
  proof (rule nth_equalityI)
    show "length (map track_id (tracks st')) = length (map track_id (tracks st))"
      using len by simp
  next
    fix j assume "j < length (map track_id (tracks st'))"
    then have jl: "j < length (tracks st)" using len by simp
    then show "map track_id (tracks st') ! j = map track_id (tracks st) ! j"
      using pos[rule_format, OF jl] len by simp
  qed
  have flags: "\<forall>t\<in>set (tracks st').
            (is_solo t \<longleftrightarrow> track_id t = trackId) \<and> (track_id t = trackId \<longrightarrow> \<not> is_muted t)"
  proof
    fix t assume "t \<in> set (tracks st')"
    then obtain j where j: "j < length (tracks st')" "tracks st' ! j = t"
      by (auto simp add: in_set_conv_nth)
    then have jl: "j < length (tracks st)" using len by simp
    have m: "track_id (tracks st ! j) \<in> set (map track_id (tracks st))" using jl by simp
    have p: "track_id (tracks st' ! j) = track_id (tracks st ! j)"
       "(is_solo (tracks st' ! j) \<longleftrightarrow> track_id (tracks st ! j) = trackId)"
       "(track_id (tracks st ! j) = trackId \<longrightarrow> \<not> is_muted (tracks st' ! j))"
      using pos[rule_format, OF jl] m by blast+
    show "(is_solo t \<longleftrightarrow> track_id t = trackId) \<and> (track_id t = trackId \<longrightarrow> \<not> is_muted t)"
      using p unfolding j(2) by simp
  qed
  have "filter is_solo (tracks st') = filter (\<lambda>t. track_id t = trackId) (tracks st')"
    by (rule filter_cong[OF refl]) (use flags in blast)
  moreover have "distinct (map track_id (tracks st'))" using ids assms(3) by simp
  ultimately have one: "length (filter is_solo (tracks st')) \<le> 1"
    using filter_by_distinct_key[of track_id "tracks st'" trackId] by simp
  define st2 where "st2 = fst (soloTrack trackId False (st, rem))"
  have u: "length (tracks st2) = length (tracks st)"
     "\<forall>j<length (tracks st).
           track_id (tracks st ! j) \<noteq> trackId \<longrightarrow> tracks st2 ! j = tracks st ! j"
     "failure rem = None \<and> trackId \<in> set (map track_id (table_rows rem)) \<longrightarrow>
           (\<forall>j<length (tracks st).
              track_id (tracks st ! j) = trackId \<longrightarrow> \<not> is_solo (tracks st2 ! j))"
    using soloTrack_unsolo[of trackId st rem] unfolding st2_def by blast+
  have s2: "fst (soloTrack trackId False (st, rem)) = st2" by (simp add: st2_def)
  have both: "\<forall>j<length (tracks st).
           (track_id (tracks st ! j) \<noteq> trackId \<longrightarrow> tracks st2 ! j = tracks st ! j)
           \<and> (track_id (tracks st ! j) = trackId \<longrightarrow> \<not> is_solo (tracks st2 ! j))"
  proof (intro allI impI conjI)
    fix j assume "j < length (tracks st)" "track_id (tracks st ! j) \<noteq> trackId"
    then show "tracks st2 ! j = tracks st ! j" using u(2) by blast
  next
    fix j assume j: "j < length (tracks st)" "track_id (tracks st ! j) = trackId"
    have "tracks st ! j \<in> set (tracks st)" using j(1) by simp
    then have "trackId \<in> set (map track_id (tracks st))" using j(2) by force
    then have "trackId \<in> set (map track_id (table_rows rem))" using assms(2) by blast
    then show "\<not> is_solo (tracks st2 ! j)" using u(3) assms(1) j by blast
  qed
  have row: "\<forall>j<length (tracks st).
           track_id (tracks st ! j) = trackId \<longrightarrow>
             (\<exists>r. find (\<lambda>r. track_id r = trackId) (table_rows rem) = Some r
                \<and> tracks st2 ! j = (merge_track (tracks st ! j) r)\<lparr> is_solo := False \<rparr>)"
  proof (intro allI impI)
    fix j assume j: "j < length (tracks st)" "track_id (tracks st ! j) = trackId"
    have "tracks st ! j \<in> set (tracks st)" using j(1) by simp
    then have "trackId \<in> set (map track_id (tracks st))" using j(2) by force
    then have "trackId \<in> set (map track_id (table_rows rem))" using assms(2) by blast
    then obtain r where r: "find (\<lambda>r. track_id r = trackId) (table_rows rem) = Some r"
      using find_by_id[of trackId "table_rows rem"] by blast
    have "tracks st2 ! j = (merge_track (tracks st ! j) r)\<lparr> is_solo := False \<rparr>"
      unfolding st2_def by (rule soloTrack_unsolo_row[OF assms(1) r j])
    then show "\<exists>r. find (\<lambda>r. track_id r = trackId) (table_rows rem) = Some r
                \<and> tracks st2 ! j = (merge_track (tracks st ! j) r)\<lparr> is_solo := False \<rparr>"
      using r by blast
  qed
  have only: "\<forall>j<length (tracks st).
           track_id (tracks st ! j) = trackId
           \<and> (\<forall>r\<in>set (table_rows rem).
                  track_id r = trackId \<longrightarrow> merge_track (tracks st ! j) r = tracks st ! j) \<longrightarrow>
             tracks st2 ! j = (tracks st ! j)\<lparr> is_solo := False \<rparr>"
  proof (intro allI impI)
    fix j assume j: "j < length (tracks st)"
      and h: "track_id (tracks st ! j) = trackId
           \<and> (\<forall>r\<in>set (table_rows rem).
                  track_id r = trackId \<longrightarrow> merge_track (tracks st ! j) r = tracks st ! j)"
    obtain r where r: "find (\<lambda>r. track_id r = trackId) (table_rows rem) = Some r"
      and t: "tracks st2 ! j = (merge_track (tracks st ! j) r)\<lparr> is_solo := False \<rparr>"
      using row[rule_format, OF j conjunct1[OF h]] by blast
    have "r \<in> set (table_rows rem)" "track_id r = trackId"
      using r by (auto simp add: find_Some_iff in_set_conv_nth)
    then have "merge_track (tracks st ! j) r = tracks st ! j" using h by blast
    then show "tracks st2 ! j = (tracks st ! j)\<lparr> is_solo := False \<rparr>" using t by simp
  qed
  show ?thesis unfolding s1 s2
    by (intro conjI) (fact flags, fact one, fact ids, fact u(1), fact both, fact row, fact only)
qed

text \<open>
  Track \<^verbatim>\<open>a\<close> is soloed, track \<^verbatim>\<open>b\<close> muted, and the table holds the same
  rows.  Soloing \<^verbatim>\<open>b\<close> leaves it the only soloed track and unmutes it;
  unsoloing \<^verbatim>\<open>a\<close> instead only clears its flag.
\<close>
theorem soloTrack_flags_witness:
  "map (\<lambda>t. (track_id t, is_solo t, is_muted t))
     (tracks (fst (soloTrack ''b'' True
        (example_store [example_track ''a'' 3 1 False True 1, example_track ''b'' 5 1 True False 2],
         example_remote [example_track ''a'' 3 1 False True 1, example_track ''b'' 5 1 True False 2]))))
     = [(''a'', False, False), (''b'', True, False)]
   \<and> tracks (fst (soloTrack ''a'' False
        (example_store [example_track ''a'' 3 1 False True 1, example_track ''b'' 5 1 True False 2],
         example_remote [example_track ''a'' 3 1 False True 1, example_track ''b'' 5 1 True False 2])))
     = [example_track ''a'' 3 1 False False 1, example_track ''b'' 5 1 True False 2]"
proof -
  let ?ts = "[example_track ''a'' 3 1 False True 1, example_track ''b'' 5 1 True False 2]"
  let ?st = "example_store ?ts" and ?rem = "example_remote ?ts"
  have h1: "failure ?rem = None" by (simp add: example_remote_def)
  have h2: "set (map track_id (tracks ?st)) \<subseteq> set (map track_id (table_rows ?rem))"
    by (simp add: example_store_def example_remote_def)
  have h3: "distinct (map track_id (tracks ?st))"
    by (simp add: example_store_def example_track_def)
  note B = soloTrack_flags[of ?rem ?st "''b''", OF h1 h2 h3]
  note A = soloTrack_flags[of ?rem ?st "''a''", OF h1 h2 h3]
  note A4 = A[THEN conjunct2, THEN conjunct2, THEN conjunct2, THEN conjunct1]
  note A5 = A[THEN conjunct2, THEN conjunct2, THEN conjunct2, THEN conjunct2, THEN conjunct1]
  note A7 = A[THEN conjunct2, THEN conjunct2, THEN conjunct2, THEN conjunct2, THEN conjunct2,
      THEN conjunct2]
  have first: "map (\<lambda>t. (track_id t, is_solo t, is_muted t))
       (tracks (fst (soloTrack ''b'' True (?st, ?rem)))) = [(''a'', False, False), (''b'', True, False)]"
    using B
    by (simp add: example_store_def example_remote_def example_track_def soloTrack_def
        solo_step_def updateTrack_def supabase_update_def apply_updates_def no_updates_def
        merge_track_def Let_def)
  have l: "length (tracks (fst (soloTrack ''a'' False (?st, ?rem)))) = 2"
    using A4 by (simp add: example_store_def)
  have e0: "tracks (fst (soloTrack ''a'' False (?st, ?rem))) ! 0
      = example_track ''a'' 3 1 False False 1"
    using A7[rule_format, of 0]
    by (simp add: example_store_def example_remote_def example_track_def merge_track_def)
  have e1: "tracks (fst (soloTrack ''a'' False (?st, ?rem))) ! 1
      = example_track ''b'' 5 1 True False 2"
    using A5[rule_format, of 1, THEN conjunct1]
    by (simp add: example_store_def example_track_def)
  have second: "tracks (fst (soloTrack ''a'' False (?st, ?rem)))
       = [example_track ''a'' 3 1 False False 1, example_track ''b'' 5 1 True False 2]"
  proof (rule nth_equalityI)
    show "length (tracks (fst (soloTrack ''a'' False (?st, ?rem))))
        = length [example_track ''a'' 3 1 False False 1, example_track ''b'' 5 1 True False 2]"
      using l by simp
  next
    fix i assume "i < length (tracks (fst (soloTrack ''a'' False (?st, ?rem))))"
    then have "i = 0 \<or> i = 1" using l by auto
    then show "tracks (fst (soloTrack ''a'' False (?st, ?rem))) ! i
        = [example_track ''a'' 3 1 False False 1, example_track ''b'' 5 1 True False 2] ! i"
      using e0 e1 by auto
  qed
  show ?thesis using first second by (rule conjI)
qed

text \<open>
  Claim C9 as stated fails in two ways.  When an update fails: the table has
  lost the row of the soloed track \<^verbatim>\<open>a\<close>, its update is refused,
  \<^verbatim>\<open>updateTrack\<close> reports \<^verbatim>\<open>false\<close>, the loop goes on, and two tracks are
  soloed afterwards.  And unsoloing does not only clear \<^verbatim>\<open>is_solo\<close>: the row
  of the table replaces the track of the store (line 744), so when the table
  has the track muted and the store has not, the unsoloed track comes back
  muted.
\<close>
theorem soloTrack_two_solos_and_unsolo_mutes:
  "map (\<lambda>t. (track_id t, is_solo t))
     (tracks (fst (soloTrack ''b'' True
        (example_store [example_track ''a'' 3 1 False True 1, example_track ''b'' 5 1 False False 2],
         example_remote [example_track ''b'' 5 1 False False 2]))))
     = [(''a'', True), (''b'', True)]
   \<and> map (\<lambda>t. (track_id t, is_solo t, is_muted t))
     (tracks (fst (soloTrack ''a'' False
        (example_store [example_track ''a'' 3 1 False True 1],
         example_remote [example_track ''a'' 3 1 True True 1]))))
     = [(''a'', False, True)]"
  by (simp add: example_store_def example_remote_def example_track_def soloTrack_def
      solo_step_def updateTrack_def supabase_update_def apply_updates_def no_updates_def
      merge_track_def Let_def)

subsection \<open>Creating a track\<close>












subsection \<open>WAV encoder\<close>

lemma length_writeString: "length (writeString off str view) = length view"
proof -
  have "length (fold (\<lambda>i. setUint8 (off + i) (of_char (str ! i))) is view) = length view" for "is"
    by (induction "is" arbitrary: view) (simp_all add: setUint8_def)
  then show ?thesis by (simp add: writeString_def)
qed

lemma length_write_header:
  "length (write_header a b c d e f view) = length view"
  by (simp add: write_header_def length_writeString setUint32_def setUint16_def)

lemma length_fold_write_sample:
  "length (fst (fold (write_sample b) ps (v, off))) = length v"
  by (induction ps arbitrary: v off) (simp_all add: write_sample_def setInt16_def)

lemma length_audioBufferToWav:
  "length (wav_bytes (audioBufferToWav b)) = 44 + ab_length b * numberOfChannels b * 2"
  by (simp add: audioBufferToWav_def Let_def length_fold_write_sample length_write_header)

lemma fold_write_sample_below:
  "j < off \<Longrightarrow> fst (fold (write_sample b) ps (v, off)) ! j = v ! j"
  by (induction ps arbitrary: v off) (simp_all add: write_sample_def setInt16_def)

lemma u16_bytes: "(v mod 256) + 256 * (v div 256 mod 256) = (v::nat) mod 65536"
proof -
  have "v mod (256 * 256) = 256 * (v div 256 mod 256) + v mod 256"
    by (rule mod_mult2_eq)
  then show ?thesis by simp
qed

lemma u32_bytes:
  "(v mod 256) + 256 * (v div 256 mod 256) + 65536 * (v div 65536 mod 256)
     + 16777216 * (v div 16777216 mod 256) = (v::nat) mod 4294967296"
proof -
  have a: "v mod (65536 * 65536) = 65536 * (v div 65536 mod 65536) + v mod 65536"
    by (rule mod_mult2_eq)
  have b: "v mod 65536 = (v mod 256) + 256 * (v div 256 mod 256)"
    using u16_bytes[of v] by simp
  have c: "(v div 65536) mod 65536 = (v div 65536 mod 256) + 256 * (v div 65536 div 256 mod 256)"
    using u16_bytes[of "v div 65536"] by simp
  have d: "v div 65536 div 256 = v div 16777216"
    by (simp add: div_mult2_eq[symmetric])
  show ?thesis using a b c d by simp
qed

lemma unat_byte: "unat (of_nat v :: 8 word) = v mod 256"
  by (simp add: unat_of_nat)

lemma uint_byte: "uint (of_int v :: 8 word) = v mod 256"
  by (simp add: uint_word_of_int)

lemma i16_mod: "(v mod 256) + 256 * (v div 256 mod 256) = (v::int) mod 65536"
proof -
  have "v mod (256 * 256) = 256 * (v div 256 mod 256) + v mod 256"
    by (rule zmod_zmult2_eq) simp
  then show ?thesis by simp
qed

lemma i16_bytes:
  assumes "- 32768 \<le> v" "v < 32768"
  shows "(let u = v mod 256 + 256 * (v div 256 mod 256) in if u < 32768 then u else u - 65536) = (v::int)"
proof (cases "0 \<le> v")
  case True
  then have "v mod 65536 = v" using assms by simp
  then show ?thesis using assms True by (simp add: i16_mod Let_def)
next
  case False
  have "(v + 65536) mod 65536 = v + 65536"
    using assms False by (intro mod_pos_pos_trivial) auto
  then have "v mod 65536 = v + 65536" by simp
  then show ?thesis using assms False by (simp add: i16_mod Let_def)
qed


lemma length_setUint8: "length (setUint8 off v view) = length view"
  by (simp add: setUint8_def)

lemma length_setUint16: "length (setUint16 off v view) = length view"
  by (simp add: setUint16_def)

lemma length_setUint32: "length (setUint32 off v view) = length view"
  by (simp add: setUint32_def)

lemma nth_setUint16_other:
  "j \<noteq> off \<Longrightarrow> j \<noteq> off + 1 \<Longrightarrow> setUint16 off v view ! j = view ! j"
  by (simp add: setUint16_def)

lemma nth_setUint32_other:
  "j < off \<or> off + 4 \<le> j \<Longrightarrow> setUint32 off v view ! j = view ! j"
  by (auto simp add: setUint32_def)

lemma nth_writeString_other:
  "j < off \<or> off + length str \<le> j \<Longrightarrow> writeString off str view ! j = view ! j"
proof -
  have "\<forall>i\<in>set is. off + i \<noteq> j \<Longrightarrow>
        fold (\<lambda>i. setUint8 (off + i) (of_char (str ! i))) is view ! j = view ! j" for "is"
    by (induction "is" arbitrary: view) (simp_all add: setUint8_def)
  moreover assume "j < off \<or> off + length str \<le> j"
  then have "\<forall>i\<in>set [0..<length str]. off + i \<noteq> j" by auto
  ultimately show ?thesis by (simp add: writeString_def)
qed

lemma getUint32_setUint32:
  "off + 3 < length view \<Longrightarrow> getUint32 off (setUint32 off v view) = v mod 4294967296"
  by (simp add: getUint32_def setUint32_def unat_byte u32_bytes)

lemma getUint16_setUint16:
  "off + 1 < length view \<Longrightarrow> getUint16 off (setUint16 off v view) = v mod 65536"
  by (simp add: getUint16_def setUint16_def unat_byte u16_bytes)

lemma getInt16_setInt16:
  "off + 1 < length view \<Longrightarrow> - 32768 \<le> ToIntegral x \<Longrightarrow> ToIntegral x < 32768 \<Longrightarrow>
     getInt16 off (setInt16 off x view) = ToIntegral x"
  using i16_bytes[of "ToIntegral x"]
  by (simp add: getInt16_def setInt16_def uint_byte)

lemma header_fields:
  assumes "44 \<le> length view"
  shows "getUint32 28 (write_header bs ch r br ba ds view) = br mod 4294967296"
    and "getUint16 32 (write_header bs ch r br ba ds view) = ba mod 65536"
    and "getUint32 40 (write_header bs ch r br ba ds view) = ds mod 4294967296"
proof -
  let ?v1 = "setUint32 24 r (setUint16 22 ch (setUint16 20 1 (setUint32 16 16
               (writeString 12 ''fmt '' (writeString 8 ''WAVE''
                  (setUint32 4 (bs - 8) (writeString 0 ''RIFF'' view)))))))"
  have l1: "length ?v1 = length view"
    by (simp add: length_setUint32 length_setUint16 length_writeString)
  let ?v2 = "setUint32 28 br ?v1"
  have l2: "length ?v2 = length view" using l1 by (simp add: length_setUint32)
  let ?v3 = "setUint16 32 ba ?v2"
  have l3: "length ?v3 = length view" using l2 by (simp add: length_setUint16)
  let ?v4 = "writeString 36 ''data'' (setUint16 34 16 ?v3)"
  have l4: "length ?v4 = length view" using l3 by (simp add: length_setUint16 length_writeString)
  have w: "write_header bs ch r br ba ds view = setUint32 40 ds ?v4"
    by (simp add: write_header_def)
  have br: "getUint32 28 ?v2 = br mod 4294967296"
    using assms l1 by (intro getUint32_setUint32) simp
  have "getUint32 28 (setUint32 40 ds ?v4) = getUint32 28 ?v2"
    unfolding getUint32_def
    by (simp add: nth_setUint32_other nth_writeString_other nth_setUint16_other)
  then show "getUint32 28 (write_header bs ch r br ba ds view) = br mod 4294967296"
    using w br by simp
  have ba: "getUint16 32 ?v3 = ba mod 65536"
    using assms l2 by (intro getUint16_setUint16) simp
  have "getUint16 32 (setUint32 40 ds ?v4) = getUint16 32 ?v3"
    unfolding getUint16_def
    by (simp add: nth_setUint32_other nth_writeString_other nth_setUint16_other)
  then show "getUint16 32 (write_header bs ch r br ba ds view) = ba mod 65536"
    using w ba by simp
  show "getUint32 40 (write_header bs ch r br ba ds view) = ds mod 4294967296"
    unfolding w using assms l4 by (intro getUint32_setUint32) simp
qed


lemma ToIntegral_intSample: "ToIntegral (intSample x) = quantized x"
proof (cases x)
  case (Fin r)
  have "ToIntegral (Fin (of_int n)) = n" for n :: int by simp
  then show ?thesis using Fin by (simp add: intSample_def clamp_sample_def quantized_def)
qed (simp_all add: intSample_def clamp_sample_def quantized_def)

lemma quantized_range: "- 32767 \<le> quantized x \<and> quantized x \<le> 32767"
proof (cases x)
  case (Fin r)
  let ?c = "max (- 1) (min 1 r)"
  have c: "- 1 \<le> ?c" "?c \<le> 1" by simp_all
  have lo: "- 32767 \<le> ?c * 32767 + 1 / 2" using c(1) by simp
  have hi: "?c * 32767 + 1 / 2 < 32768" using c(2) by simp
  have "- 32767 \<le> \<lfloor>?c * 32767 + 1 / 2\<rfloor>" using lo by (simp add: le_floor_iff)
  moreover have "\<lfloor>?c * 32767 + 1 / 2\<rfloor> < 32768" using hi by (simp add: floor_less_iff)
  ultimately show ?thesis using Fin by (simp add: quantized_def)
qed (simp_all add: quantized_def)

lemma fold_write_sample_at:
  assumes "k < length ps" "off + 2 * length ps \<le> length v"
  shows "fst (fold (write_sample b) ps (v, off)) ! (off + 2 * k)
           = of_int (ToIntegral (intSample (getChannelData b (snd (ps ! k)) (fst (ps ! k)))))
       \<and> fst (fold (write_sample b) ps (v, off)) ! (off + 2 * k + 1)
           = of_int (ToIntegral (intSample (getChannelData b (snd (ps ! k)) (fst (ps ! k)))) div 256)"
  using assms
proof (induction ps arbitrary: v off k)
  case Nil
  then show ?case by simp
next
  case (Cons p ps)
  let ?v' = "setInt16 off (intSample (getChannelData b (snd p) (fst p))) v"
  have step: "fold (write_sample b) (p # ps) (v, off) = fold (write_sample b) ps (?v', off + 2)"
    by (simp add: write_sample_def)
  have len: "length ?v' = length v" by (simp add: setInt16_def)
  show ?case
  proof (cases k)
    case 0
    have "off + 1 < length v" using Cons.prems(2) by simp
    then have "?v' ! off = of_int (ToIntegral (intSample (getChannelData b (snd p) (fst p))))"
      "?v' ! (off + 1) = of_int (ToIntegral (intSample (getChannelData b (snd p) (fst p))) div 256)"
      by (simp_all add: setInt16_def)
    then show ?thesis using 0 step
      by (simp add: fold_write_sample_below)
  next
    case (Suc k')
    have k': "k' < length ps" using Cons.prems(1) Suc by simp
    have fit: "off + 2 + 2 * length ps \<le> length ?v'" using Cons.prems(2) len by simp
    show ?thesis using Cons.IH[OF k' fit] Suc step by (simp add: add.commute add.left_commute)
  qed
qed

lemma product_upt_nth:
  assumes "i < n" "ch < c"
  shows "i * c + ch < length (List.product [0..<n] [0..<c])"
    and "List.product [0..<n] [0..<c] ! (i * c + ch) = (i, ch)"
proof -
  have "i * c + ch < Suc i * c" using assms(2) by simp
  also have "\<dots> \<le> n * c" using assms(1) by (intro mult_le_mono1) simp
  finally have lt: "i * c + ch < n * c" .
  then show "i * c + ch < length (List.product [0..<n] [0..<c])" by simp
  have "List.product [0..<n] [0..<c] ! (i * c + ch)
        = ([0..<n] ! ((i * c + ch) div length [0..<c]), [0..<c] ! ((i * c + ch) mod length [0..<c]))"
    using lt by (intro product_nth) simp
  moreover have "(i * c + ch) div c = i" "(i * c + ch) mod c = ch" using assms(2) by simp_all
  ultimately show "List.product [0..<n] [0..<c] ! (i * c + ch) = (i, ch)"
    using assms by simp
qed

lemma audioBufferToWav_sample:
  assumes "i < ab_length b" "ch < numberOfChannels b"
  shows "getInt16 (44 + 2 * (i * numberOfChannels b + ch)) (wav_bytes (audioBufferToWav b))
           = quantized (getChannelData b ch i)"
proof -
  let ?n = "ab_length b" and ?c = "numberOfChannels b"
  let ?ps = "List.product [0..<?n] [0..<?c]"
  let ?view = "write_header (44 + ?n * (?c * 2)) ?c (sampleRate b) (sampleRate b * (?c * 2)) (?c * 2)
                 (?n * (?c * 2)) (replicate (44 + ?n * (?c * 2)) 0)"
  let ?k = "i * ?c + ch"
  have w: "wav_bytes (audioBufferToWav b) = fst (fold (write_sample b) ?ps (?view, 44))"
    by (simp add: audioBufferToWav_def Let_def)
  have k: "?k < length ?ps" and p: "?ps ! ?k = (i, ch)"
    using product_upt_nth[OF assms] by simp_all
  have fit: "44 + 2 * length ?ps \<le> length ?view"
    by (simp add: length_write_header)
  note at = fold_write_sample_at[OF k fit, of b]
  let ?q = "ToIntegral (intSample (getChannelData b ch i))"
  have b0: "wav_bytes (audioBufferToWav b) ! (44 + 2 * ?k) = of_int ?q"
    and b1: "wav_bytes (audioBufferToWav b) ! (44 + 2 * ?k + 1) = of_int (?q div 256)"
    using at p w by simp_all
  have r: "- 32768 \<le> ?q" "?q < 32768"
    using quantized_range[of "getChannelData b ch i"] by (simp_all add: ToIntegral_intSample)
  have "getInt16 (44 + 2 * ?k) (wav_bytes (audioBufferToWav b)) = ?q"
    unfolding getInt16_def b0 b1 uint_byte using i16_bytes[OF r] by simp
  then show ?thesis by (simp add: ToIntegral_intSample)
qed

lemma audioBufferToWav_header:
  "getUint32 28 (wav_bytes (audioBufferToWav b))
      = (sampleRate b * numberOfChannels b * 2) mod 4294967296"
  "getUint16 32 (wav_bytes (audioBufferToWav b)) = (numberOfChannels b * 2) mod 65536"
  "getUint32 40 (wav_bytes (audioBufferToWav b))
      = (ab_length b * numberOfChannels b * 2) mod 4294967296"
proof -
  let ?n = "ab_length b" and ?c = "numberOfChannels b"
  let ?ps = "List.product [0..<?n] [0..<?c]"
  let ?view = "write_header (44 + ?n * (?c * 2)) ?c (sampleRate b) (sampleRate b * (?c * 2)) (?c * 2)
                 (?n * (?c * 2)) (replicate (44 + ?n * (?c * 2)) 0)"
  have w: "wav_bytes (audioBufferToWav b) = fst (fold (write_sample b) ?ps (?view, 44))"
    by (simp add: audioBufferToWav_def Let_def)
  have same: "j < 44 \<Longrightarrow> wav_bytes (audioBufferToWav b) ! j = ?view ! j" for j
    unfolding w by (rule fold_write_sample_below)
  have l: "44 \<le> length (replicate (44 + ?n * (?c * 2)) (0::8 word))" by simp
  note h = header_fields[OF l, of "44 + ?n * (?c * 2)" ?c "sampleRate b" "sampleRate b * (?c * 2)"
      "?c * 2" "?n * (?c * 2)"]
  have "getUint32 28 (wav_bytes (audioBufferToWav b)) = getUint32 28 ?view"
    by (simp add: getUint32_def same)
  then show "getUint32 28 (wav_bytes (audioBufferToWav b))
      = (sampleRate b * numberOfChannels b * 2) mod 4294967296"
    using h(1) by (simp add: mult.assoc)
  have "getUint16 32 (wav_bytes (audioBufferToWav b)) = getUint16 32 ?view"
    by (simp add: getUint16_def same)
  then show "getUint16 32 (wav_bytes (audioBufferToWav b)) = (numberOfChannels b * 2) mod 65536"
    using h(2) by simp
  have "getUint32 40 (wav_bytes (audioBufferToWav b)) = getUint32 40 ?view"
    by (simp add: getUint32_def same)
  then show "getUint32 40 (wav_bytes (audioBufferToWav b))
      = (ab_length b * numberOfChannels b * 2) mod 4294967296"
    using h(3) by (simp add: mult.assoc)
qed


text \<open>
  Claim C2, as amended.  The blob has \<open>44 + n * c * 2\<close> bytes.  The header
  stores the byte rate \<open>s * c * 2\<close> and the data size \<open>n * c * 2\<close> in 32 bits
  and the block align \<open>c * 2\<close> in 16 bits: a value that fits its field is stored
  as it is, a greater one modulo the width.  The sample of frame \<open>i\<close> and
  channel \<open>ch\<close> stands at offset \<open>44 + 2 * (i * c + ch)\<close> as a little-endian
  16-bit integer: the sample clamped to the range from -1 to 1, times 32767,
  rounded (0 for a NaN), which always lies between -32767 and 32767, so that it
  never wraps.
\<close>
theorem audioBufferToWav_layout:
  "length (wav_bytes (audioBufferToWav b)) = 44 + ab_length b * numberOfChannels b * 2
   \<and> getUint32 28 (wav_bytes (audioBufferToWav b))
        = (sampleRate b * numberOfChannels b * 2) mod 2 ^ 32
   \<and> getUint16 32 (wav_bytes (audioBufferToWav b)) = (numberOfChannels b * 2) mod 2 ^ 16
   \<and> getUint32 40 (wav_bytes (audioBufferToWav b))
        = (ab_length b * numberOfChannels b * 2) mod 2 ^ 32
   \<and> (sampleRate b * numberOfChannels b * 2 < 2 ^ 32 \<longrightarrow>
        getUint32 28 (wav_bytes (audioBufferToWav b)) = sampleRate b * numberOfChannels b * 2)
   \<and> (numberOfChannels b * 2 < 2 ^ 16 \<longrightarrow>
        getUint16 32 (wav_bytes (audioBufferToWav b)) = numberOfChannels b * 2)
   \<and> (ab_length b * numberOfChannels b * 2 < 2 ^ 32 \<longrightarrow>
        getUint32 40 (wav_bytes (audioBufferToWav b)) = ab_length b * numberOfChannels b * 2)
   \<and> (\<forall>i ch. i < ab_length b \<and> ch < numberOfChannels b \<longrightarrow>
        getInt16 (44 + 2 * (i * numberOfChannels b + ch)) (wav_bytes (audioBufferToWav b))
          = quantized (getChannelData b ch i)
        \<and> - 32767 \<le> quantized (getChannelData b ch i)
        \<and> quantized (getChannelData b ch i) \<le> 32767)"
proof -
  have a: "length (wav_bytes (audioBufferToWav b)) = 44 + ab_length b * numberOfChannels b * 2"
    by (rule length_audioBufferToWav)
  have h1: "getUint32 28 (wav_bytes (audioBufferToWav b))
        = (sampleRate b * numberOfChannels b * 2) mod 2 ^ 32"
    using audioBufferToWav_header(1)[of b] by simp
  have h2: "getUint16 32 (wav_bytes (audioBufferToWav b)) = (numberOfChannels b * 2) mod 2 ^ 16"
    using audioBufferToWav_header(2)[of b] by simp
  have h3: "getUint32 40 (wav_bytes (audioBufferToWav b))
        = (ab_length b * numberOfChannels b * 2) mod 2 ^ 32"
    using audioBufferToWav_header(3)[of b] by simp
  have s: "\<forall>i ch. i < ab_length b \<and> ch < numberOfChannels b \<longrightarrow>
        getInt16 (44 + 2 * (i * numberOfChannels b + ch)) (wav_bytes (audioBufferToWav b))
          = quantized (getChannelData b ch i)
        \<and> - 32767 \<le> quantized (getChannelData b ch i)
        \<and> quantized (getChannelData b ch i) \<le> 32767"
    using audioBufferToWav_sample[of _ b] quantized_range by blast
  show ?thesis using a h1 h2 h3 s by (simp del: One_nat_def)
qed

text \<open>
  Two frames of two channels at 44100 Hz, with the samples 0.5 on the left and
  -2 on the right.
\<close>
theorem audioBufferToWav_layout_witness:
  "length (wav_bytes (audioBufferToWav
     \<lparr> ab_length = 2, numberOfChannels = 2, sampleRate = 44100,
       getChannelData = (\<lambda>ch i. if ch = 0 then Fin (1 / 2) else Fin (- 2)) \<rparr>)) = 52
   \<and> getUint32 28 (wav_bytes (audioBufferToWav
     \<lparr> ab_length = 2, numberOfChannels = 2, sampleRate = 44100,
       getChannelData = (\<lambda>ch i. if ch = 0 then Fin (1 / 2) else Fin (- 2)) \<rparr>)) = 176400
   \<and> getUint16 32 (wav_bytes (audioBufferToWav
     \<lparr> ab_length = 2, numberOfChannels = 2, sampleRate = 44100,
       getChannelData = (\<lambda>ch i. if ch = 0 then Fin (1 / 2) else Fin (- 2)) \<rparr>)) = 4
   \<and> getUint32 40 (wav_bytes (audioBufferToWav
     \<lparr> ab_length = 2, numberOfChannels = 2, sampleRate = 44100,
       getChannelData = (\<lambda>ch i. if ch = 0 then Fin (1 / 2) else Fin (- 2)) \<rparr>)) = 8
   \<and> getInt16 44 (wav_bytes (audioBufferToWav
     \<lparr> ab_length = 2, numberOfChannels = 2, sampleRate = 44100,
       getChannelData = (\<lambda>ch i. if ch = 0 then Fin (1 / 2) else Fin (- 2)) \<rparr>)) = 16384
   \<and> getInt16 50 (wav_bytes (audioBufferToWav
     \<lparr> ab_length = 2, numberOfChannels = 2, sampleRate = 44100,
       getChannelData = (\<lambda>ch i. if ch = 0 then Fin (1 / 2) else Fin (- 2)) \<rparr>)) = - 32767"
proof -
  let ?b = "\<lparr> ab_length = 2, numberOfChannels = 2, sampleRate = 44100,
       getChannelData = (\<lambda>ch i. if ch = 0 then Fin (1 / 2) else Fin (- 2)) \<rparr>"
  note T = audioBufferToWav_layout[of ?b]
  have len: "length (wav_bytes (audioBufferToWav ?b)) = 52"
    using T[THEN conjunct1] by simp
  have br: "getUint32 28 (wav_bytes (audioBufferToWav ?b)) = 176400"
    using T[THEN conjunct2, THEN conjunct1] by simp
  have ba: "getUint16 32 (wav_bytes (audioBufferToWav ?b)) = 4"
    using T[THEN conjunct2, THEN conjunct2, THEN conjunct1] by simp
  have ds: "getUint32 40 (wav_bytes (audioBufferToWav ?b)) = 8"
    using T[THEN conjunct2, THEN conjunct2, THEN conjunct2, THEN conjunct1] by simp
  note S = T[THEN conjunct2, THEN conjunct2, THEN conjunct2, THEN conjunct2, THEN conjunct2,
      THEN conjunct2, THEN conjunct2, rule_format]
  have q0: "quantized (Fin (1 / 2)) = 16384" by (simp add: quantized_def)
  have q1: "quantized (Fin (- 2)) = - 32767"
  proof -
    have "\<lfloor>- (65533 / 2 :: real)\<rfloor> = - 32767" by (simp add: floor_eq_iff)
    then show ?thesis by (simp add: quantized_def)
  qed
  have s0: "getInt16 44 (wav_bytes (audioBufferToWav ?b)) = 16384"
    using S[of 0 0] q0 by simp
  have s1: "getInt16 50 (wav_bytes (audioBufferToWav ?b)) = - 32767"
    using S[of 1 1] q1 by simp
  show ?thesis using len br ba ds s0 s1 by blast
qed

text \<open>
  Claim C2 as stated fails for a buffer of 4 GiB of samples: with two channels
  and \<open>2 ^ 30\<close> frames the data size is \<open>2 ^ 32\<close>, and \<^verbatim>\<open>setUint32\<close> stores 0.
\<close>
theorem audioBufferToWav_data_size_wraps:
  "getUint32 40 (wav_bytes (audioBufferToWav
     \<lparr> ab_length = 1073741824, numberOfChannels = 2, sampleRate = 44100,
       getChannelData = (\<lambda>ch i. Fin 0) \<rparr>)) = 0
   \<and> (1073741824 :: nat) * 2 * 2 = 4294967296"
  using audioBufferToWav_header(3)
    [of "\<lparr> ab_length = 1073741824, numberOfChannels = 2, sampleRate = 44100,
          getChannelData = (\<lambda>ch i. Fin 0) \<rparr>"]
  by simp

subsection \<open>Order of the effects\<close>

text \<open>
  The samples of the processed audio are computed by the platform's
  \<^verbatim>\<open>startRendering\<close>, which is a parameter of \<^verbatim>\<open>processAudioWithEffects\<close>
  here.  What the panel decides is the graph it hands over: the lemmas below
  describe that graph for every list of the five effects, and show that it
  follows the order of activation.
\<close>

text \<open>
  \<^verbatim>\<open>toggleEffect\<close> puts an effect that is not active at the end of the list and
  removes one that is, keeping the others in their order.
\<close>
lemma toggleEffect_activate:
  "effectName \<notin> set prev \<Longrightarrow> toggleEffect effectName prev = prev @ [effectName]"
  by (simp add: toggleEffect_def)

lemma toggleEffect_deactivate:
  "effectName \<in> set prev \<Longrightarrow>
     toggleEffect effectName prev = filter (\<lambda>name. name \<noteq> effectName) prev"
  by (simp add: toggleEffect_def)

lemma toggleEffect_sequences:
  "toggleEffect ''compressor'' (toggleEffect ''equalizer'' []) = [''equalizer'', ''compressor'']"
  "toggleEffect ''equalizer'' (toggleEffect ''compressor'' []) = [''compressor'', ''equalizer'']"
  by (simp_all add: toggleEffect_def)

text \<open>
  Activating the effects of a duplicate-free list one after the other, from
  the empty list, gives that list.
\<close>
lemma toggleEffect_fold:
  assumes "distinct (prev @ es)"
  shows "fold toggleEffect es prev = prev @ es"
  using assms
proof (induction es arbitrary: prev)
  case Nil
  then show ?case by simp
next
  case (Cons e es)
  have e: "e \<notin> set prev" using Cons.prems by auto
  have d: "distinct ((prev @ [e]) @ es)" using Cons.prems by auto
  have "fold toggleEffect (e # es) prev = fold toggleEffect es (prev @ [e])"
    using e by (simp add: toggleEffect_def)
  also have "\<dots> = (prev @ [e]) @ es" using Cons.IH[OF d] .
  finally show ?case by simp
qed

lemma apply_effect_equalizer:
  assumes "length (nodes g) = Suc cur"
  shows "apply_effect sr p ''equalizer'' (g, cur) =
           Inr (g\<lparr> nodes := nodes g @ stage_nodes sr p ''equalizer'',
                   connections := connections g
                      @ stage_connections ''equalizer'' cur (Suc cur) \<rparr>,
                cur + length (stage_nodes sr p ''equalizer''))"
  using assms
  by (simp add: apply_effect_def stage_nodes_def stage_connections_def create_node_def
      connect_def Let_def)

lemma apply_effect_compressor:
  assumes "length (nodes g) = Suc cur"
  shows "apply_effect sr p ''compressor'' (g, cur) =
           Inr (g\<lparr> nodes := nodes g @ stage_nodes sr p ''compressor'',
                   connections := connections g
                      @ stage_connections ''compressor'' cur (Suc cur) \<rparr>,
                cur + length (stage_nodes sr p ''compressor''))"
  using assms
  by (simp add: apply_effect_def stage_nodes_def stage_connections_def create_node_def
      connect_def Let_def)

lemma apply_effect_reverb:
  assumes "length (nodes g) = Suc cur" "\<not> \<lfloor>real sr * roomSize (reverb p) * 4\<rfloor> < 1"
  shows "apply_effect sr p ''reverb'' (g, cur) =
           Inr (g\<lparr> nodes := nodes g @ stage_nodes sr p ''reverb'',
                   connections := connections g
                      @ stage_connections ''reverb'' cur (Suc cur) \<rparr>,
                cur + length (stage_nodes sr p ''reverb''))"
  using assms
  by (simp add: apply_effect_def stage_nodes_def stage_connections_def create_node_def
      connect_def Let_def)

lemma apply_effect_delay:
  assumes "length (nodes g) = Suc cur"
  shows "apply_effect sr p ''delay'' (g, cur) =
           Inr (g\<lparr> nodes := nodes g @ stage_nodes sr p ''delay'',
                   connections := connections g
                      @ stage_connections ''delay'' cur (Suc cur) \<rparr>,
                cur + length (stage_nodes sr p ''delay''))"
  using assms
  by (simp add: apply_effect_def stage_nodes_def stage_connections_def create_node_def
      connect_def Let_def)

lemma apply_effect_chorus:
  assumes "length (nodes g) = Suc cur"
  shows "apply_effect sr p ''chorus'' (g, cur) =
           Inr (g\<lparr> nodes := nodes g @ stage_nodes sr p ''chorus'',
                   connections := connections g
                      @ stage_connections ''chorus'' cur (Suc cur) \<rparr>,
                cur + length (stage_nodes sr p ''chorus''))"
  using assms
  by (simp add: apply_effect_def stage_nodes_def stage_connections_def create_node_def
      connect_def Let_def)

text \<open>One effect: its nodes are appended and wired from the current node.\<close>
lemma apply_effect_stage:
  assumes "e \<in> set effect_names"
      and "e = ''reverb'' \<longrightarrow> 1 \<le> impulse_frames sr p"
      and "Suc cur = length (nodes g)"
  shows "apply_effect sr p e (g, cur) =
           Inr (g\<lparr> nodes := nodes g @ stage_nodes sr p e,
                   connections := connections g @ stage_connections e cur (Suc cur) \<rparr>,
                cur + length (stage_nodes sr p e))"
proof -
  have n: "length (nodes g) = Suc cur" using assms(3) by simp
  have d: "e = ''equalizer'' \<or> e = ''compressor'' \<or> e = ''reverb'' \<or> e = ''delay''
      \<or> e = ''chorus''"
    using assms(1) by (simp add: effect_names_def)
  have r: "e = ''reverb'' \<Longrightarrow> \<not> \<lfloor>real sr * roomSize (reverb p) * 4\<rfloor> < 1"
    using assms(2) by (simp add: impulse_frames_def)
  from d show ?thesis
  proof (elim disjE)
    assume e: "e = ''equalizer''"
    show ?thesis unfolding e by (rule apply_effect_equalizer[OF n])
  next
    assume e: "e = ''compressor''"
    show ?thesis unfolding e by (rule apply_effect_compressor[OF n])
  next
    assume e: "e = ''reverb''"
    show ?thesis unfolding e by (rule apply_effect_reverb[OF n r[OF e]])
  next
    assume e: "e = ''delay''"
    show ?thesis unfolding e by (rule apply_effect_delay[OF n])
  next
    assume e: "e = ''chorus''"
    show ?thesis unfolding e by (rule apply_effect_chorus[OF n])
  qed
qed

lemma stage_nodes_nonempty:
  "e \<in> set effect_names \<Longrightarrow> stage_nodes sr p e \<noteq> []"
  by (auto simp add: effect_names_def stage_nodes_def)

text \<open>The loop: the stages follow each other in the order of the list.\<close>
lemma apply_effects_stages:
  assumes "set es \<subseteq> set effect_names"
      and "''reverb'' \<in> set es \<longrightarrow> 1 \<le> impulse_frames sr p"
      and "Suc cur = length (nodes g)"
  shows "apply_effects sr p es (g, cur) =
           Inr (g\<lparr> nodes := nodes g @ concat (map (stage_nodes sr p) es),
                   connections := connections g @ stage_wiring sr p (Suc cur) es \<rparr>,
                cur + length (concat (map (stage_nodes sr p) es)))"
  using assms
proof (induction es arbitrary: g cur)
  case Nil
  then show ?case by simp
next
  case (Cons e es)
  let ?k = "length (stage_nodes sr p e)"
  let ?g1 = "g\<lparr> nodes := nodes g @ stage_nodes sr p e,
                connections := connections g @ stage_connections e cur (Suc cur) \<rparr>"
  have e: "e \<in> set effect_names" using Cons.prems(1) by simp
  have es: "set es \<subseteq> set effect_names" using Cons.prems(1) by simp
  have r1: "e = ''reverb'' \<longrightarrow> 1 \<le> impulse_frames sr p" using Cons.prems(2) by simp
  have r2: "''reverb'' \<in> set es \<longrightarrow> 1 \<le> impulse_frames sr p" using Cons.prems(2) by simp
  have one: "apply_effect sr p e (g, cur) = Inr (?g1, cur + ?k)"
    using apply_effect_stage[OF e r1 Cons.prems(3)] .
  have inv: "Suc (cur + ?k) = length (nodes ?g1)" using Cons.prems(3) by simp
  have rest: "apply_effects sr p es (?g1, cur + ?k) =
           Inr (?g1\<lparr> nodes := nodes ?g1 @ concat (map (stage_nodes sr p) es),
                   connections := connections ?g1 @ stage_wiring sr p (Suc (cur + ?k)) es \<rparr>,
                cur + ?k + length (concat (map (stage_nodes sr p) es)))"
    using Cons.IH[OF es r2 inv] .
  show ?case using one rest by (simp add: add.assoc)
qed

text \<open>
  The graph that is rendered, for every list of the five effects whose reverb,
  if there is one, has an impulse response: the destination, the source, then
  the nodes of each effect in the order of the list; every effect reads from
  the output of the one before it (the first from the source), and the output
  of the last effect (the source, for an empty list) feeds the destination.
\<close>
lemma effects_graph_in_order:
  assumes "set es \<subseteq> set effect_names"
      and "''reverb'' \<in> set es \<longrightarrow> 1 \<le> impulse_frames sr p"
  shows "effects_graph sr p es =
     Inr \<lparr> nodes = Destination # BufferSource # concat (map (stage_nodes sr p) es),
           connections = stage_wiring sr p 2 es
              @ [(Suc (length (concat (map (stage_nodes sr p) es))), NodeInput 0)] \<rparr>"
proof -
  let ?g = "\<lparr> nodes = [Destination, BufferSource], connections = [] \<rparr>"
  have "apply_effects sr p es (?g, 1) =
           Inr (?g\<lparr> nodes := nodes ?g @ concat (map (stage_nodes sr p) es),
                   connections := connections ?g @ stage_wiring sr p (Suc 1) es \<rparr>,
                1 + length (concat (map (stage_nodes sr p) es)))"
    by (rule apply_effects_stages[OF assms]) simp
  then show ?thesis
    by (simp add: effects_graph_def create_node_def connect_def numeral_2_eq_2)
qed

text \<open>
  The processed blob is the encoding of what the platform renders from that
  graph and the decoded buffer.
\<close>
lemma processAudioWithEffects_renders_in_order:
  assumes "es \<noteq> []" and "set es \<subseteq> set effect_names"
      and "''reverb'' \<in> set es \<longrightarrow> 1 \<le> impulse_frames (sampleRate src) p"
  shows "processAudioWithEffects render (Some src) p es =
     Some (audioBufferToWav (render
       \<lparr> nodes = Destination # BufferSource
                   # concat (map (stage_nodes (sampleRate src) p) es),
         connections = stage_wiring (sampleRate src) p 2 es
            @ [(Suc (length (concat (map (stage_nodes (sampleRate src) p) es))),
                NodeInput 0)] \<rparr> src))"
  using assms(1) effects_graph_in_order[OF assms(2,3)]
  by (simp add: processAudioWithEffects_def)

text \<open>A reverb without an impulse response ends the processing without a blob.\<close>
lemma apply_effects_reverb_fails:
  assumes "''reverb'' \<in> set es" and "impulse_frames sr p < 1"
  shows "apply_effects sr p es gc = Inl NotSupportedError"
  using assms(1)
proof (induction es arbitrary: gc)
  case Nil
  then show ?case by simp
next
  case (Cons e es)
  show ?case
  proof (cases "apply_effect sr p e gc")
    case (Inl x)
    then show ?thesis by (cases x) simp
  next
    case (Inr gc')
    have "e \<noteq> ''reverb''"
    proof
      assume "e = ''reverb''"
      then have "apply_effect sr p e gc = Inl NotSupportedError"
        using assms(2) by (simp add: apply_effect_def impulse_frames_def Let_def)
      then show False using Inr by simp
    qed
    then have "''reverb'' \<in> set es" using Cons.prems by simp
    then show ?thesis using Inr Cons.IH by simp
  qed
qed

lemma processAudioWithEffects_reverb_fails:
  assumes "''reverb'' \<in> set es" and "impulse_frames (sampleRate src) p < 1"
  shows "processAudioWithEffects render (Some src) p es = None"
proof -
  have "es \<noteq> []" using assms(1) by auto
  then show ?thesis
    using apply_effects_reverb_fails[OF assms]
    by (simp add: processAudioWithEffects_def effects_graph_def create_node_def)
qed

text \<open>
  Two different effects in the two orders give two different graphs, whatever
  the parameters: the first node after the source is the first node of the
  effect that was activated first.
\<close>
lemma stage_nodes_hd_distinct:
  assumes "a \<in> set effect_names" "b \<in> set effect_names" "a \<noteq> b"
  shows "hd (stage_nodes sr p a) \<noteq> hd (stage_nodes sr p b)"
proof -
  have da: "a = ''equalizer'' \<or> a = ''compressor'' \<or> a = ''reverb'' \<or> a = ''delay''
      \<or> a = ''chorus''"
    using assms(1) by (simp add: effect_names_def)
  have db: "b = ''equalizer'' \<or> b = ''compressor'' \<or> b = ''reverb'' \<or> b = ''delay''
      \<or> b = ''chorus''"
    using assms(2) by (simp add: effect_names_def)
  show ?thesis
    using da db assms(3) by (elim disjE) (simp_all add: stage_nodes_def)
qed

lemma effects_graph_order_matters:
  assumes "a \<in> set effect_names" "b \<in> set effect_names" "a \<noteq> b"
      and "''reverb'' \<in> {a, b} \<longrightarrow> 1 \<le> impulse_frames sr p"
  shows "effects_graph sr p [a, b] \<noteq> effects_graph sr p [b, a]"
proof -
  have s1: "set [a, b] \<subseteq> set effect_names" using assms(1,2) by simp
  have s2: "set [b, a] \<subseteq> set effect_names" using assms(1,2) by simp
  have r1: "''reverb'' \<in> set [a, b] \<longrightarrow> 1 \<le> impulse_frames sr p" using assms(4) by auto
  have r2: "''reverb'' \<in> set [b, a] \<longrightarrow> 1 \<le> impulse_frames sr p" using assms(4) by auto
  obtain x xs where a: "stage_nodes sr p a = x # xs"
    using stage_nodes_nonempty[OF assms(1), of sr p] by (cases "stage_nodes sr p a") auto
  obtain y ys where b: "stage_nodes sr p b = y # ys"
    using stage_nodes_nonempty[OF assms(2), of sr p] by (cases "stage_nodes sr p b") auto
  have "x \<noteq> y" using stage_nodes_hd_distinct[OF assms(1,2,3), of sr p] a b by simp
  then show ?thesis
    unfolding effects_graph_in_order[OF s1 r1] effects_graph_in_order[OF s2 r2]
    using a b by simp
qed

lemma equalizer_compressor_order_matters:
  "effects_graph sr p [''equalizer'', ''compressor'']
     \<noteq> effects_graph sr p [''compressor'', ''equalizer'']"
  by (rule effects_graph_order_matters) (simp_all add: effect_names_def)

text \<open>The two graphs for the default parameters at 44100 Hz, and one with a reverb.\<close>
lemma effects_graph_examples:
  "effects_graph 44100 default_parameters [''equalizer'', ''compressor''] =
       Inr \<lparr> nodes = [Destination, BufferSource,
                      BiquadFilter ''lowshelf'' 320 1 0, BiquadFilter ''peaking'' 1000 1 0,
                      BiquadFilter ''highshelf'' 3200 1 0,
                      DynamicsCompressor (- 24) 3 (3 / 1000) (1 / 4)],
             connections = [(1, NodeInput 2), (2, NodeInput 3), (3, NodeInput 4),
                            (4, NodeInput 5), (5, NodeInput 0)] \<rparr>"
  "effects_graph 44100 default_parameters [''compressor'', ''equalizer''] =
       Inr \<lparr> nodes = [Destination, BufferSource,
                      DynamicsCompressor (- 24) 3 (3 / 1000) (1 / 4),
                      BiquadFilter ''lowshelf'' 320 1 0, BiquadFilter ''peaking'' 1000 1 0,
                      BiquadFilter ''highshelf'' 3200 1 0],
             connections = [(1, NodeInput 2), (2, NodeInput 3), (3, NodeInput 4),
                            (4, NodeInput 5), (5, NodeInput 0)] \<rparr>"
  "effects_graph 10 default_parameters [''reverb'', ''compressor''] =
       Inr \<lparr> nodes = [Destination, BufferSource,
                      Convolver 12 (1 / 2), Gain (3 / 10), Gain (7 / 10), Gain 1,
                      DynamicsCompressor (- 24) 3 (3 / 1000) (1 / 4)],
             connections = [(1, NodeInput 2), (2, NodeInput 3), (3, NodeInput 5),
                            (1, NodeInput 4), (4, NodeInput 5),
                            (5, NodeInput 6), (6, NodeInput 0)] \<rparr>"
  by (simp_all add: effects_graph_def apply_effect_def create_node_def connect_def
      default_parameters_def Let_def)

end
